theory Spec2Isabelle
  imports Main
begin

chapter \<open>5Head: boards, timelines and the multiverse position\<close>

text \<open>
  A shallow embedding of \<^verbatim>\<open>types.h\<close>, \<^verbatim>\<open>position.h\<close> (the inline member functions
  of \<^verbatim>\<open>Board2D\<close>, \<^verbatim>\<open>Timeline\<close> and \<^verbatim>\<open>Position\<close>) and \<^verbatim>\<open>position.cpp\<close>
  (\<^verbatim>\<open>Board2D::set\<close>, \<^verbatim>\<open>Timeline::plyToBoardIdx\<close>, \<^verbatim>\<open>Position::set\<close>,
  \<^verbatim>\<open>Position::new_timeline\<close>).

  C++ member functions mutate their object; here each takes the object and returns the
  new one. A call that C++ leaves undefined (an index outside an array or a vector, a
  signed \<^verbatim>\<open>int\<close> overflow, a read of an uninitialised variable) returns
  \<open>Inl UndefinedBehaviour\<close>; a failed \<^verbatim>\<open>assert\<close> (the build keeps them: \<^verbatim>\<open>NDEBUG\<close> is not
  defined anywhere) returns \<open>Inl AssertionFailed\<close>. \<open>UndefinedBehaviour\<close> is not a
  diagnosis of the program: the code makes no check there, the model only refuses to say
  what happens next.
\<close>

section \<open>Errors and machine integers\<close>

datatype error = UndefinedBehaviour | AssertionFailed

fun ebind :: "error + 'a \<Rightarrow> ('a \<Rightarrow> error + 'b) \<Rightarrow> error + 'b" where
  "ebind (Inl e) f = Inl e"
| "ebind (Inr x) f = f x"

fun is_ok :: "error + 'a \<Rightarrow> bool" where
  "is_ok (Inl e) = False"
| "is_ok (Inr x) = True"

text \<open>
  \<^verbatim>\<open>int\<close> is taken as 32 bits and \<^verbatim>\<open>short\<close> as 16 bits, two's complement. The result of
  signed \<^verbatim>\<open>int\<close> arithmetic that leaves the range is undefined (\<open>int_result\<close>); a
  conversion of a wider value to \<^verbatim>\<open>int\<close> or \<^verbatim>\<open>short\<close> keeps the low bits (\<open>to_int\<close>,
  \<open>to_short\<close>; \<open>to_char\<close> for a signed \<^verbatim>\<open>char\<close>).
\<close>

definition int_result :: "int \<Rightarrow> error + int" where
  "int_result x =
     (if - (2 ^ 31) \<le> x \<and> x \<le> 2 ^ 31 - 1 then Inr x else Inl UndefinedBehaviour)"

definition to_int :: "int \<Rightarrow> int" where
  "to_int x = (x + 2 ^ 31) mod 2 ^ 32 - 2 ^ 31"

definition to_short :: "int \<Rightarrow> int" where
  "to_short x = (x + 2 ^ 15) mod 2 ^ 16 - 2 ^ 15"

definition to_char :: "int \<Rightarrow> int" where
  "to_char x = (x + 2 ^ 7) mod 2 ^ 8 - 2 ^ 7"

definition in_array :: "int \<Rightarrow> int \<Rightarrow> bool" where
  "in_array n i = (0 \<le> i \<and> i < n)"

section \<open>types.h\<close>

datatype Color = WHITE | BLACK

fun color_int :: "Color \<Rightarrow> int" where
  "color_int WHITE = 0"
| "color_int BLACK = 1"

text \<open>
  \<^verbatim>\<open>Color(n)\<close>: the cast from \<^verbatim>\<open>int\<close>. The model applies it to 0 and 1 only (to
  \<^verbatim>\<open>1 - c\<close> and to \<^verbatim>\<open>pc >> 3\<close> of a piece that has just indexed \<^verbatim>\<open>pieceCount\<close>).
\<close>

definition Color_of_int :: "int \<Rightarrow> Color" where
  "Color_of_int n = (if n = 0 then WHITE else BLACK)"

type_synonym PieceType = int
type_synonym Piece = int
type_synonym Square2D = int
type_synonym Time = int
type_synonym L = int

definition ALL_PIECES :: PieceType where [simp]: "ALL_PIECES = 0"

definition NO_PIECE :: Piece where [simp]: "NO_PIECE = 0"
definition W_PAWN :: Piece where [simp]: "W_PAWN = 1"
definition W_KNIGHT :: Piece where [simp]: "W_KNIGHT = 2"
definition W_BISHOP :: Piece where [simp]: "W_BISHOP = 3"
definition W_ROOK :: Piece where [simp]: "W_ROOK = 4"
definition W_QUEEN :: Piece where [simp]: "W_QUEEN = 5"
definition W_KING :: Piece where [simp]: "W_KING = 6"
definition B_PAWN :: Piece where [simp]: "B_PAWN = 9"
definition B_KNIGHT :: Piece where [simp]: "B_KNIGHT = 10"
definition B_BISHOP :: Piece where [simp]: "B_BISHOP = 11"
definition B_ROOK :: Piece where [simp]: "B_ROOK = 12"
definition B_QUEEN :: Piece where [simp]: "B_QUEEN = 13"
definition B_KING :: Piece where [simp]: "B_KING = 14"
definition PIECE_NB :: int where [simp]: "PIECE_NB = 16"

definition SQ_A1 :: Square2D where [simp]: "SQ_A1 = 0"
definition SQ_NONE :: Square2D where [simp]: "SQ_NONE = 64"
definition SQUARE_NB :: int where [simp]: "SQUARE_NB = 64"

definition NORTH :: int where [simp]: "NORTH = 8"
definition EAST :: int where [simp]: "EAST = 1"
definition SOUTH :: int where [simp]: "SOUTH = - NORTH"
definition WEST :: int where [simp]: "WEST = - EAST"

definition other_color :: "Color \<Rightarrow> Color" where
  "other_color c = Color_of_int (1 - color_int c)"

definition make_piece :: "Color \<Rightarrow> PieceType \<Rightarrow> Piece" where
  "make_piece c pt = push_bit 3 (color_int c) + pt"

definition color_of :: "Piece \<Rightarrow> Color" where
  "color_of pc = Color_of_int (drop_bit 3 pc)"

text \<open>The twelve pieces, as \<^verbatim>\<open>Pieces[]\<close> of position.cpp lists them.\<close>

definition Pieces :: "Piece list" where
  "Pieces = [W_PAWN, W_KNIGHT, W_BISHOP, W_ROOK, W_QUEEN, W_KING,
             B_PAWN, B_KNIGHT, B_BISHOP, B_ROOK, B_QUEEN, B_KING]"

section \<open>Board2D\<close>

text \<open>
  The arrays \<^verbatim>\<open>board[SQUARE_NB]\<close>, \<^verbatim>\<open>pieceCount[PIECE_NB]\<close>, \<^verbatim>\<open>pieceList[PIECE_NB][16]\<close>
  and \<^verbatim>\<open>index[SQUARE_NB]\<close> are functions of the index; every access checks the index
  against the array's bound, and an index outside it is undefined behaviour.
  \<^verbatim>\<open>boardWidth\<close> is a plain \<^verbatim>\<open>char\<close>, taken as signed and 8 bits wide (as on x86):
  \<open>to_char\<close> is the conversion that stores a wider value in it.
\<close>

record Board2D =
  boardWidth :: int
  board :: "Square2D \<Rightarrow> Piece"
  pieceCount :: "Piece \<Rightarrow> int"
  pieceList :: "Piece \<Rightarrow> int \<Rightarrow> Square2D"
  index :: "Square2D \<Rightarrow> int"
  sideToMove :: Color

definition board_width :: "Board2D \<Rightarrow> int" where
  "board_width b = boardWidth b"

definition side_to_move :: "Board2D \<Rightarrow> Color" where
  "side_to_move b = sideToMove b"

definition piece_on :: "Board2D \<Rightarrow> Square2D \<Rightarrow> error + Piece" where
  "piece_on b s = (if in_array SQUARE_NB s then Inr (board b s) else Inl UndefinedBehaviour)"

definition empty :: "Board2D \<Rightarrow> Square2D \<Rightarrow> error + bool" where
  "empty b s = ebind (piece_on b s) (\<lambda>pc. Inr (pc = NO_PIECE))"

text \<open>
  \<^verbatim>\<open>put_piece\<close>, statement by statement:
  \<^verbatim>\<open>board[s] = pc; index[s] = pieceCount[pc]++; pieceList[pc][index[s]] = s;
  pieceCount[make_piece(color_of(pc), ALL_PIECES)]++;\<close>
  There is no test that \<open>s\<close> is empty.
\<close>

definition put_piece :: "Board2D \<Rightarrow> Piece \<Rightarrow> Square2D \<Rightarrow> error + Board2D" where
  "put_piece b pc s =
     (if \<not> in_array SQUARE_NB s then Inl UndefinedBehaviour else
      let b1 = b\<lparr>board := (board b)(s := pc)\<rparr> in
      if \<not> in_array PIECE_NB pc then Inl UndefinedBehaviour else
      ebind (int_result (pieceCount b1 pc + 1)) (\<lambda>n.
      let b2 = b1\<lparr>index := (index b1)(s := pieceCount b1 pc),
                  pieceCount := (pieceCount b1)(pc := n)\<rparr> in
      if \<not> in_array 16 (index b2 s) then Inl UndefinedBehaviour else
      let b3 = b2\<lparr>pieceList := (pieceList b2)(pc := (pieceList b2 pc)(index b2 s := s))\<rparr>;
          a = make_piece (color_of pc) ALL_PIECES in
      if \<not> in_array PIECE_NB a then Inl UndefinedBehaviour else
      ebind (int_result (pieceCount b3 a + 1)) (\<lambda>m.
      Inr (b3\<lparr>pieceCount := (pieceCount b3)(a := m)\<rparr>))))"

text \<open>
  \<^verbatim>\<open>remove_piece\<close>, statement by statement:
  \<^verbatim>\<open>Piece pc = board[s]; board[s] = NO_PIECE;
  Square2D lastSquare = pieceList[pc][--pieceCount[pc]];
  index[lastSquare] = index[s]; pieceList[pc][index[lastSquare]] = lastSquare;
  pieceList[pc][pieceCount[pc]] = SQ_NONE;
  pieceCount[make_piece(color_of(pc), ALL_PIECES)]--;\<close>
  There is no test that \<open>s\<close> is occupied.
\<close>

definition remove_piece :: "Board2D \<Rightarrow> Square2D \<Rightarrow> error + Board2D" where
  "remove_piece b s =
     (if \<not> in_array SQUARE_NB s then Inl UndefinedBehaviour else
      let pc = board b s;
          b1 = b\<lparr>board := (board b)(s := NO_PIECE)\<rparr> in
      if \<not> in_array PIECE_NB pc then Inl UndefinedBehaviour else
      ebind (int_result (pieceCount b1 pc - 1)) (\<lambda>n.
      let b2 = b1\<lparr>pieceCount := (pieceCount b1)(pc := n)\<rparr> in
      if \<not> in_array 16 n then Inl UndefinedBehaviour else
      let lastSquare = pieceList b2 pc n in
      if \<not> in_array SQUARE_NB lastSquare then Inl UndefinedBehaviour else
      let b3 = b2\<lparr>index := (index b2)(lastSquare := index b2 s)\<rparr> in
      if \<not> in_array 16 (index b3 lastSquare) then Inl UndefinedBehaviour else
      let b4 = b3\<lparr>pieceList :=
                    (pieceList b3)(pc := (pieceList b3 pc)(index b3 lastSquare := lastSquare))\<rparr>;
          b5 = b4\<lparr>pieceList :=
                    (pieceList b4)(pc := (pieceList b4 pc)(pieceCount b4 pc := SQ_NONE))\<rparr>;
          a = make_piece (color_of pc) ALL_PIECES in
      if \<not> in_array PIECE_NB a then Inl UndefinedBehaviour else
      ebind (int_result (pieceCount b5 a - 1)) (\<lambda>m.
      Inr (b5\<lparr>pieceCount := (pieceCount b5)(a := m)\<rparr>))))"

definition passTurn :: "Board2D \<Rightarrow> Board2D" where
  "passTurn b = b\<lparr>sideToMove := other_color (sideToMove b)\<rparr>"

subsection \<open>Board2D::set: reading a board from FEN\<close>

text \<open>
  \<^verbatim>\<open>isspace\<close> and \<^verbatim>\<open>isdigit\<close> of the C locale, and \<^verbatim>\<open>std::string::find\<close> of one
  character (the first position, or \<^verbatim>\<open>npos\<close>: \<open>None\<close>). A character above 127 is
  neither a space nor a digit here; \<^verbatim>\<open>Square2D\<close> values are plain integers, also
  outside the enumeration's range.
\<close>

definition isspace :: "char \<Rightarrow> bool" where
  "isspace c = (c \<in> set [CHR '' '', CHR 0x09, CHR 0x0A, CHR 0x0B, CHR 0x0C, CHR 0x0D])"

definition isdigit :: "char \<Rightarrow> bool" where
  "isdigit c = (48 \<le> (of_char c :: nat) \<and> (of_char c :: nat) \<le> 57)"

definition PieceToChar :: string where
  "PieceToChar = '' PNBRQK  pnbrqk''"

fun find_char :: "string \<Rightarrow> char \<Rightarrow> nat \<Rightarrow> nat option" where
  "find_char [] c i = None"
| "find_char (x # xs) c i = (if x = c then Some i else find_char xs c (Suc i))"

text \<open>
  \<^verbatim>\<open>memset(this, 0, sizeof(Board2D))\<close> followed by
  \<^verbatim>\<open>std::fill_n(&pieceList[0][0], ..., SQ_NONE)\<close>: the board \<^verbatim>\<open>set\<close> starts from,
  whatever the object held before.
\<close>

definition Board2D_cleared :: Board2D where
  "Board2D_cleared =
     \<lparr>boardWidth = 0, board = (\<lambda>s. NO_PIECE), pieceCount = (\<lambda>pc. 0),
      pieceList = (\<lambda>pc i. SQ_NONE), index = (\<lambda>s. 0), sideToMove = WHITE\<rparr>"

text \<open>
  Step 0 of \<^verbatim>\<open>set\<close>, the width loop
  \<^verbatim>\<open>for (int idx = 0; !isspace(fenStr[idx]); ++idx)\<close>, over the characters left to
  read. \<open>token\<close> is \<open>None\<close> while the variable is uninitialised; \<open>width\<close> is an
  \<^verbatim>\<open>unsigned char\<close>. At the end of the string \<^verbatim>\<open>fenStr[size()]\<close> is the null character
  (not a space, not a digit, not a slash: it is counted), and the next read, past it, is
  undefined.
\<close>

fun fen_width :: "string \<Rightarrow> char option \<Rightarrow> nat \<Rightarrow> error + (char option \<times> nat)" where
  "fen_width [] token width = Inl UndefinedBehaviour"
| "fen_width (c # cs) token width =
     (if isspace c then Inr (token, width)
      else if isdigit c then fen_width cs (Some c) ((width + (of_char c - 48)) mod 256)
      else if c = CHR ''/'' then Inr (Some c, width)
      else fen_width cs (Some c) ((width + 1) mod 256))"

text \<open>
  Step 1, the loop \<^verbatim>\<open>while ((ss >> token) && !isspace(token))\<close> over the stream
  (\<^verbatim>\<open>noskipws\<close>): a read at the end of the stream fails and leaves \<open>token\<close> as it was.
  The result is the board, the token and the rest of the stream.
\<close>

fun fen_pieces ::
  "int \<Rightarrow> string \<Rightarrow> Square2D \<Rightarrow> char option \<Rightarrow> Board2D \<Rightarrow>
   error + (Board2D \<times> char option \<times> string)" where
  "fen_pieces width [] sq token b = Inr (b, token, [])"
| "fen_pieces width (c # cs) sq token b =
     (if isspace c then Inr (b, Some c, cs)
      else if isdigit c then
        ebind (int_result (sq + (int (of_char c) - 48) * EAST)) (\<lambda>sq'.
        fen_pieces width cs sq' (Some c) b)
      else if c = CHR ''/'' then
        ebind (int_result (sq + width * WEST)) (\<lambda>sq1.
        ebind (int_result (sq1 + SOUTH)) (\<lambda>sq'.
        fen_pieces width cs sq' (Some c) b))
      else
        (case find_char PieceToChar c 0 of
           Some idx \<Rightarrow>
             ebind (put_piece b (int idx) sq) (\<lambda>b'.
             ebind (int_result (sq + 1)) (\<lambda>sq'.
             fen_pieces width cs sq' (Some c) b'))
         | None \<Rightarrow> fen_pieces width cs sq (Some c) b))"

text \<open>
  \<^verbatim>\<open>Board2D::set\<close>. After the pieces, \<^verbatim>\<open>ss >> token\<close> reads the side to move when
  the stream still has a character; \<^verbatim>\<open>sideToMove = (token == 'w' ? WHITE : BLACK)\<close>.
  \<^verbatim>\<open>boardWidth = width\<close> stores the \<^verbatim>\<open>unsigned char\<close> count in the \<^verbatim>\<open>char\<close> member,
  taken as signed (a count above 127 is stored negative); the square arithmetic uses the count itself.
  The object's previous contents are erased first, so the result depends on the string
  only.
\<close>

definition Board2D_set :: "string \<Rightarrow> error + Board2D" where
  "Board2D_set fenStr =
     ebind (fen_width fenStr None 0) (\<lambda>(token0, width).
     let b0 = Board2D_cleared\<lparr>boardWidth := to_char (int width)\<rparr> in
     ebind (int_result (SQ_A1 + (int width - 1) * NORTH)) (\<lambda>sq.
     ebind (fen_pieces (int width) fenStr sq token0 b0) (\<lambda>(b, token, rest).
     let token' = (case rest of [] \<Rightarrow> token | c # cs \<Rightarrow> Some c) in
     (case token' of
        None \<Rightarrow> Inl UndefinedBehaviour
      | Some t \<Rightarrow> Inr (b\<lparr>sideToMove := (if t = CHR ''w'' then WHITE else BLACK)\<rparr>)))))"

section \<open>Timeline\<close>

text \<open>
  \<^verbatim>\<open>boards\<close> is a vector of shared pointers; every board the code stores is a fresh
  copy (\<^verbatim>\<open>new Board2D(...)\<close>), so the model stores the boards themselves.
\<close>

record Timeline =
  startTime :: Time
  startColor :: Color
  active :: bool
  boards :: "Board2D list"
  printIndented :: bool

text \<open>The constructor \<^verbatim>\<open>Timeline(Time, Color)\<close> with the members' default values.\<close>

definition Timeline_init :: "Time \<Rightarrow> Color \<Rightarrow> Timeline" where
  "Timeline_init setStartTime setStartColor =
     \<lparr>startTime = setStartTime, startColor = setStartColor, active = False,
      boards = [], printIndented = True\<rparr>"

definition start_time :: "Timeline \<Rightarrow> Time" where
  "start_time line = startTime line"

definition start_color :: "Timeline \<Rightarrow> Color" where
  "start_color line = startColor line"

definition is_active :: "Timeline \<Rightarrow> bool" where
  "is_active line = active line"

definition activate :: "Timeline \<Rightarrow> Timeline" where
  "activate line = line\<lparr>active := True\<rparr>"

definition append_board :: "Timeline \<Rightarrow> Board2D \<Rightarrow> Timeline" where
  "append_board line newBoard = line\<lparr>boards := boards line @ [newBoard]\<rparr>"

definition set_print_indented :: "Timeline \<Rightarrow> bool \<Rightarrow> Timeline" where
  "set_print_indented line pi = line\<lparr>printIndented := pi\<rparr>"

text \<open>\<^verbatim>\<open>int dt = time - startTime; int dc = c - startColor; return 2 * dt + dc;\<close>\<close>

definition plyToBoardIdx :: "Timeline \<Rightarrow> Time \<Rightarrow> Color \<Rightarrow> error + int" where
  "plyToBoardIdx line time c =
     ebind (int_result (time - startTime line)) (\<lambda>dt.
     let dc = color_int c - color_int (startColor line) in
     ebind (int_result (2 * dt)) (\<lambda>d2.
     int_result (d2 + dc)))"

text \<open>\<^verbatim>\<open>int idx = plyToBoardIdx(time, c); return idx < 0;\<close>\<close>

definition has_board_on_turn :: "Timeline \<Rightarrow> Time \<Rightarrow> Color \<Rightarrow> error + bool" where
  "has_board_on_turn line time c =
     ebind (plyToBoardIdx line time c) (\<lambda>idx. Inr (idx < 0))"

text \<open>
  \<^verbatim>\<open>std::vector::operator[]\<close> makes no range check: an index that is not below the size
  is undefined behaviour, and a negative \<^verbatim>\<open>int\<close> converts to an index far above it.
\<close>

definition vector_at :: "'a list \<Rightarrow> int \<Rightarrow> error + 'a" where
  "vector_at v i =
     (if 0 \<le> i \<and> i < int (length v) then Inr (v ! nat i) else Inl UndefinedBehaviour)"

definition board_on_turn :: "Timeline \<Rightarrow> Time \<Rightarrow> Color \<Rightarrow> error + Board2D" where
  "board_on_turn line time c =
     ebind (plyToBoardIdx line time c) (\<lambda>idx. vector_at (boards line) idx)"

definition first_board :: "Timeline \<Rightarrow> error + Board2D" where
  "first_board line = (if boards line = [] then Inl UndefinedBehaviour else Inr (hd (boards line)))"

definition last_board :: "Timeline \<Rightarrow> error + Board2D" where
  "last_board line = (if boards line = [] then Inl UndefinedBehaviour else Inr (last (boards line)))"

section \<open>Position\<close>

text \<open>
  The active-line counters are \<^verbatim>\<open>short\<close>; \<open>pos_sideToMove\<close> is the member
  \<^verbatim>\<open>Position::sideToMove\<close> (the board has a member of the same name).
\<close>

record Position =
  negativeLines :: "Timeline list"
  positiveLines :: "Timeline list"
  activePositiveLines :: int
  activeNegativeLines :: int
  timeOfPresent :: Time
  pos_sideToMove :: Color

text \<open>
  \<^verbatim>\<open>return negativeLines.size();\<close> and \<^verbatim>\<open>return positiveLines.size() - 1;\<close>, each
  converted from \<^verbatim>\<open>size_t\<close> to \<^verbatim>\<open>L\<close>, an \<^verbatim>\<open>int\<close>.
\<close>

definition negative_timeline_count :: "Position \<Rightarrow> L" where
  "negative_timeline_count p = to_int (int (length (negativeLines p)))"

definition positive_timeline_count :: "Position \<Rightarrow> L" where
  "positive_timeline_count p = to_int (int (length (positiveLines p)) - 1)"

text \<open>
  \<^verbatim>\<open>if (timeline >= 0) return positiveLines[timeline]; return negativeLines[-timeline - 1];\<close>
  with the header's warning: "Doesn't check if the timeline exists, which can lead to
  crashes!"
\<close>

definition timeline :: "Position \<Rightarrow> L \<Rightarrow> error + Timeline" where
  "timeline p l =
     (if l \<ge> 0 then vector_at (positiveLines p) l
      else ebind (int_result (- l)) (\<lambda>n.
           ebind (int_result (n - 1)) (\<lambda>k.
           vector_at (negativeLines p) k)))"

definition pos_side_to_move :: "Position \<Rightarrow> Color" where
  "pos_side_to_move p = pos_sideToMove p"

definition time_of_present :: "Position \<Rightarrow> Time" where
  "time_of_present p = timeOfPresent p"

subsection \<open>Position::set\<close>

text \<open>
  The body of both loops: \<^verbatim>\<open>board->set(fen); Timeline tl(1, board->side_to_move());
  tl.append_board(*board); tl.activate();\<close>
\<close>

definition fen_timeline :: "string \<Rightarrow> error + Timeline" where
  "fen_timeline fen =
     ebind (Board2D_set fen) (\<lambda>b.
     Inr (activate (append_board (Timeline_init 1 (side_to_move b)) b)))"

text \<open>
  \<^verbatim>\<open>for (int i = negativeFENs.size() - 1; i >= 0; --i)\<close>, from the value of \<open>i\<close>
  on.
\<close>

function set_negative :: "string list \<Rightarrow> int \<Rightarrow> Timeline list \<Rightarrow> error + Timeline list" where
  "set_negative negativeFENs i lines =
     (if i \<ge> 0 then
        ebind (vector_at negativeFENs i) (\<lambda>fen.
        ebind (fen_timeline fen) (\<lambda>line.
        set_negative negativeFENs (i - 1) (lines @ [line])))
      else Inr lines)"
  by pat_completeness auto
termination
  by (relation "measure (\<lambda>(negativeFENs, i, lines). nat (i + 1))") auto

text \<open>\<^verbatim>\<open>for (std::string& fen : positiveFENs)\<close>\<close>

fun set_positive :: "string list \<Rightarrow> Timeline list \<Rightarrow> error + Timeline list" where
  "set_positive [] lines = Inr lines"
| "set_positive (fen # fens) lines =
     ebind (fen_timeline fen) (\<lambda>line. set_positive fens (lines @ [line]))"

text \<open>
  \<^verbatim>\<open>Position::set\<close> clears both vectors and assigns every other member, so the
  position it leaves depends on the two lists only. The counters are assigned from
  \<^verbatim>\<open>size_t\<close> values, converted to \<^verbatim>\<open>short\<close>.
\<close>

definition Position_set :: "string list \<Rightarrow> string list \<Rightarrow> error + Position" where
  "Position_set negativeFENs positiveFENs =
     ebind (set_negative negativeFENs (to_int (int (length negativeFENs) - 1)) []) (\<lambda>neg.
     ebind (set_positive positiveFENs []) (\<lambda>pos.
     ebind (vector_at pos 0) (\<lambda>central.
     ebind (first_board central) (\<lambda>fb.
     Inr \<lparr>negativeLines = neg, positiveLines = pos,
          activePositiveLines = to_short (int (length positiveFENs) - 1),
          activeNegativeLines = to_short (int (length negativeFENs)),
          timeOfPresent = 1,
          pos_sideToMove = side_to_move fb\<rparr>))))"

subsection \<open>Position::new_timeline\<close>

text \<open>
  The arm \<^verbatim>\<open>if (sideToMove == WHITE) { ... positiveLines.push_back(newTimeline); }\<close>.
  \<open>first\<close> is the condition \<^verbatim>\<open>pos_cnt == neg_cnt || pos_cnt == neg_cnt - 1\<close>.
\<close>

definition new_timeline_white :: "Position \<Rightarrow> Timeline \<Rightarrow> L \<Rightarrow> L \<Rightarrow> error + Position" where
  "new_timeline_white p newTimeline pos_cnt neg_cnt =
     ebind (if pos_cnt = neg_cnt then Inr True
            else ebind (int_result (neg_cnt - 1)) (\<lambda>m. Inr (pos_cnt = m))) (\<lambda>first.
     if first then
       let newTimeline' = activate newTimeline;
           p1 = p\<lparr>activePositiveLines := to_short (activePositiveLines p + 1)\<rparr>;
           p2 = p1\<lparr>timeOfPresent := min (timeOfPresent p1) (start_time newTimeline')\<rparr>
       in Inr (p2\<lparr>positiveLines := positiveLines p2 @ [newTimeline']\<rparr>)
     else
       ebind (int_result (neg_cnt - 1)) (\<lambda>m.
       if pos_cnt < m then
         let newTimeline' = activate newTimeline;
             p1 = p\<lparr>activePositiveLines := to_short (activePositiveLines p + 1)\<rparr>
         in
         ebind (int_result (pos_cnt + 1)) (\<lambda>k.
         ebind (vector_at (negativeLines p1) k) (\<lambda>balancing.
         if is_active balancing then Inl AssertionFailed else
         let p2 = p1\<lparr>negativeLines := (negativeLines p1)[nat k := activate balancing]\<rparr>;
             p3 = p2\<lparr>activeNegativeLines := to_short (activeNegativeLines p2 + 1)\<rparr>;
             p4 = p3\<lparr>timeOfPresent :=
                       min (timeOfPresent p3)
                           (min (start_time newTimeline') (start_time (activate balancing)))\<rparr>
         in Inr (p4\<lparr>positiveLines := positiveLines p4 @ [newTimeline']\<rparr>)))
       else Inr (p\<lparr>positiveLines := positiveLines p @ [newTimeline]\<rparr>)))"

text \<open>
  The arm \<^verbatim>\<open>else { ... negativeLines.push_back(newTimeline); }\<close> for Black. Its second
  case activates \<^verbatim>\<open>positiveLines[neg_cnt + 2]\<close> and has no
  \<^verbatim>\<open>++activePositiveLines\<close>.
\<close>

definition new_timeline_black :: "Position \<Rightarrow> Timeline \<Rightarrow> L \<Rightarrow> L \<Rightarrow> error + Position" where
  "new_timeline_black p newTimeline pos_cnt neg_cnt =
     ebind (if neg_cnt = pos_cnt then Inr True
            else ebind (int_result (pos_cnt - 1)) (\<lambda>m. Inr (neg_cnt = m))) (\<lambda>first.
     if first then
       let newTimeline' = activate newTimeline;
           p1 = p\<lparr>activeNegativeLines := to_short (activeNegativeLines p + 1)\<rparr>;
           p2 = p1\<lparr>timeOfPresent := min (timeOfPresent p1) (start_time newTimeline')\<rparr>
       in Inr (p2\<lparr>negativeLines := negativeLines p2 @ [newTimeline']\<rparr>)
     else
       ebind (int_result (pos_cnt - 1)) (\<lambda>m.
       if neg_cnt < m then
         let newTimeline' = activate newTimeline;
             p1 = p\<lparr>activeNegativeLines := to_short (activeNegativeLines p + 1)\<rparr>
         in
         ebind (int_result (neg_cnt + 2)) (\<lambda>k.
         ebind (vector_at (positiveLines p1) k) (\<lambda>balancing.
         if is_active balancing then Inl AssertionFailed else
         let p2 = p1\<lparr>positiveLines := (positiveLines p1)[nat k := activate balancing]\<rparr>;
             p3 = p2\<lparr>timeOfPresent :=
                       min (timeOfPresent p2)
                           (min (start_time newTimeline') (start_time (activate balancing)))\<rparr>
         in Inr (p3\<lparr>negativeLines := negativeLines p3 @ [newTimeline']\<rparr>)))
       else Inr (p\<lparr>negativeLines := negativeLines p @ [newTimeline]\<rparr>)))"

text \<open>
  \<^verbatim>\<open>Position::new_timeline(branchLine, branchTime)\<close>. The C++ function returns a
  reference to the new board, which is also the first board of the new timeline; the
  model returns the position and that board.
\<close>

definition new_timeline :: "Position \<Rightarrow> L \<Rightarrow> Time \<Rightarrow> error + (Position \<times> Board2D)" where
  "new_timeline p branchLine branchTime =
     ebind (timeline p branchLine) (\<lambda>targetLine.
     ebind (board_on_turn targetLine branchTime (pos_sideToMove p)) (\<lambda>targetBoard.
     let newBoard = passTurn targetBoard in
     ebind (int_result (branchTime + color_int (pos_sideToMove p))) (\<lambda>st.
     let newTimeline = append_board (Timeline_init st (side_to_move newBoard)) newBoard;
         pos_cnt = positive_timeline_count p;
         neg_cnt = negative_timeline_count p
     in
     ebind (if pos_sideToMove p = WHITE
            then new_timeline_white p newTimeline pos_cnt neg_cnt
            else new_timeline_black p newTimeline pos_cnt neg_cnt) (\<lambda>p'.
     Inr (p', newBoard)))))"

subsection \<open>The callers of the position\<close>

text \<open>
  \<^verbatim>\<open>Position::sideToMove\<close> is private and \<^verbatim>\<open>set\<close> is the only function that assigns it:
  between two calls of \<^verbatim>\<open>set\<close> the mover is the same. What a caller can do to a
  position is to branch, to extend a timeline as test.cpp does:
  \<^verbatim>\<open>((Timeline&)pos.timeline(l)).append_board(*(new Board2D(board)))\<close>, and to change
  a board through the reference \<^verbatim>\<open>board_on_turn\<close> or \<^verbatim>\<open>new_timeline\<close> returns, as
  test.cpp does with \<^verbatim>\<open>new_board.remove_piece(SQ_D4)\<close>.
\<close>

definition timeline_append_board :: "Position \<Rightarrow> L \<Rightarrow> Board2D \<Rightarrow> error + Position" where
  "timeline_append_board p l b =
     ebind (timeline p l) (\<lambda>line.
     if l \<ge> 0
     then Inr (p\<lparr>positiveLines := (positiveLines p)[nat l := append_board line b]\<rparr>)
     else Inr (p\<lparr>negativeLines := (negativeLines p)[nat (- l - 1) := append_board line b]\<rparr>))"

text \<open>
  \<^verbatim>\<open>pos.timeline(l).board_on_turn(time, c)\<close> is a \<^verbatim>\<open>Board2D&\<close>; \<open>b\<close> is the board after
  the caller's changes to it, whatever they are.
\<close>

definition timeline_edit_board ::
  "Position \<Rightarrow> L \<Rightarrow> Time \<Rightarrow> Color \<Rightarrow> Board2D \<Rightarrow> error + Position" where
  "timeline_edit_board p l time c b =
     ebind (timeline p l) (\<lambda>line.
     ebind (plyToBoardIdx line time c) (\<lambda>idx.
     ebind (vector_at (boards line) idx) (\<lambda>old.
     let line' = line\<lparr>boards := (boards line)[nat idx := b]\<rparr> in
     if l \<ge> 0
     then Inr (p\<lparr>positiveLines := (positiveLines p)[nat l := line']\<rparr>)
     else Inr (p\<lparr>negativeLines := (negativeLines p)[nat (- l - 1) := line']\<rparr>))))"

text \<open>A run of such calls, each on the position the one before it left.\<close>

datatype position_call = Branch L Time | Append L Board2D | Edit L Time Color Board2D

fun do_position_call :: "Position \<Rightarrow> position_call \<Rightarrow> error + Position" where
  "do_position_call p (Branch branchLine branchTime) =
     ebind (new_timeline p branchLine branchTime) (\<lambda>(p', newBoard). Inr p')"
| "do_position_call p (Append l b) = timeline_append_board p l b"
| "do_position_call p (Edit l time c b) = timeline_edit_board p l time c b"

fun position_run :: "Position \<Rightarrow> position_call list \<Rightarrow> error + Position" where
  "position_run p [] = Inr p"
| "position_run p (c # cs) = ebind (do_position_call p c) (\<lambda>p'. position_run p' cs)"

subsection \<open>The position of test.cpp\<close>

text \<open>
  test.cpp starts from \<^verbatim>\<open>pos.set({ }, { "3k/4/4/KN2 w" })\<close>: one central timeline,
  White to move. \<open>test_board\<close> and \<open>test_position\<close> name what the two \<^verbatim>\<open>set\<close>
  functions return for it (lemmas \<open>Board2D_set_test_fen\<close> and \<open>Position_set_test\<close>).
\<close>

definition test_fen :: string where
  "test_fen = ''3k/4/4/KN2 w''"

definition test_board :: Board2D where
  "test_board = projr (Board2D_set test_fen)"

definition test_position :: Position where
  "test_position = projr (Position_set [] [test_fen])"

subsection \<open>Words of the claims about branching\<close>

text \<open>
  The vector the mover's new timeline is pushed to, and the counts the branch rule
  compares: \<^verbatim>\<open>pos_cnt\<close> and \<^verbatim>\<open>neg_cnt\<close>, named from the mover's side.
\<close>

fun mover_lines :: "Color \<Rightarrow> Position \<Rightarrow> Timeline list" where
  "mover_lines WHITE p = positiveLines p"
| "mover_lines BLACK p = negativeLines p"

definition own_count :: "Position \<Rightarrow> L" where
  "own_count p =
     (if pos_sideToMove p = WHITE then positive_timeline_count p
      else negative_timeline_count p)"

definition opp_count :: "Position \<Rightarrow> L" where
  "opp_count p =
     (if pos_sideToMove p = WHITE then negative_timeline_count p
      else positive_timeline_count p)"

text \<open>
  Every timeline of \<open>old\<close> is still there, in its place, and active if it was.
\<close>

definition keeps_active :: "Timeline list \<Rightarrow> Timeline list \<Rightarrow> bool" where
  "keeps_active old new =
     (length old \<le> length new \<and>
      (\<forall>i < length old. active (old ! i) \<longrightarrow> active (new ! i)))"

text \<open>
  A position Black is to move in, \<^verbatim>\<open>pos.set({ }, { "3k/4/4/KN2 b" })\<close>, after Black
  has branched from the central timeline and the caller has appended to the new
  timeline a copy of its first board, unchanged, as test.cpp appends copies to the
  central timeline.
\<close>

definition black_fen :: string where
  "black_fen = ''3k/4/4/KN2 b''"

definition black_board :: Board2D where
  "black_board = projr (Board2D_set black_fen)"

definition black_position :: Position where
  "black_position = projr (Position_set [] [black_fen])"

definition black_position_extended :: Position where
  "black_position_extended =
     projr (ebind (new_timeline black_position 0 1) (\<lambda>(p, newBoard).
            timeline_append_board p (- 1) newBoard))"

text \<open>The position of test.cpp after White has branched once.\<close>

definition white_once :: Position where
  "white_once = projr (position_run test_position [Branch 0 1])"

text \<open>
  A run from the position of test.cpp: White branches, the caller extends the central
  timeline by a copy of its board, White branches again.
\<close>

definition test_run :: "position_call list" where
  "test_run = [Branch 0 1, Append 0 test_board, Branch 0 1]"



text \<open>
  A position with 32767 negative timelines and 32767 positive ones beside the central
  one, each a lone black king with White to move.
\<close>

definition full_position :: Position where
  "full_position =
     projr (Position_set (replicate 32767 ''k w'') (replicate 32768 ''k w''))"

text \<open>The balance rule of the position: the two counters differ by at most one.\<close>

definition balanced :: "Position \<Rightarrow> bool" where
  "balanced p = (\<bar>activePositiveLines p - activeNegativeLines p\<bar> \<le> 1)"

text \<open>
  What keeps the counters balanced while the mover stays the same. The mover's side never
  has two timelines fewer than the other side, so the rule's second case is not taken;
  the other side's counter is the number of its timelines and fits a \<^verbatim>\<open>short\<close> with one
  to spare; the mover's counter is the number of the mover's timelines, up to one more
  than the other side has. \<open>P\<close> and \<open>N\<close> are the numbers of positive and negative
  timelines, the central one not counted.
\<close>

definition counters_track :: "Position \<Rightarrow> bool" where
  "counters_track p =
     (let P = int (length (positiveLines p)) - 1;
          N = int (length (negativeLines p))
      in 0 \<le> P \<and>
         (case pos_sideToMove p of
            WHITE \<Rightarrow> N \<le> 32766 \<and> N - 1 \<le> P \<and>
                     activeNegativeLines p = N \<and> activePositiveLines p = min P (N + 1)
          | BLACK \<Rightarrow> P \<le> 32766 \<and> P - 1 \<le> N \<and>
                     activePositiveLines p = P \<and> activeNegativeLines p = min N (P + 1)))"


text \<open>The central timeline of the position of test.cpp.\<close>

definition test_central :: Timeline where
  "test_central = projr (timeline test_position 0)"

subsection \<open>Words of the claim about initialisation\<close>

text \<open>
  \<open>line\<close> is the timeline \<^verbatim>\<open>Position::set\<close> creates for \<open>fen\<close>: it starts at time 1 with
  the decoded board's side to move, holds that board only, and is active.
\<close>

definition initial_timeline :: "string \<Rightarrow> Timeline \<Rightarrow> bool" where
  "initial_timeline fen line =
     (\<exists>b. Board2D_set fen = Inr b \<and> start_time line = 1 \<and>
          start_color line = side_to_move b \<and> boards line = [b] \<and> is_active line)"

text \<open>Thirty-two thousand seven hundred and sixty-nine timelines, each a lone black king.\<close>

definition many_fens :: "string list" where
  "many_fens = replicate 32769 ''k w''"

subsection \<open>Sequences of placements and removals\<close>

datatype board_call = Put Piece Square2D | Remove Square2D

fun do_call :: "Board2D \<Rightarrow> board_call \<Rightarrow> error + Board2D" where
  "do_call b (Put pc s) = put_piece b pc s"
| "do_call b (Remove s) = remove_piece b s"

fun do_calls :: "Board2D \<Rightarrow> board_call list \<Rightarrow> error + Board2D" where
  "do_calls b [] = Inr b"
| "do_calls b (c # cs) = ebind (do_call b c) (\<lambda>b'. do_calls b' cs)"

text \<open>
  A placement of one of the twelve pieces on an empty square, a removal from an occupied
  square; and a placement that finds room in the sixteen entries of its piece's list.
\<close>

fun call_allowed :: "Board2D \<Rightarrow> board_call \<Rightarrow> bool" where
  "call_allowed b (Put pc s) = (pc \<in> set Pieces \<and> empty b s = Inr True)"
| "call_allowed b (Remove s) = (empty b s = Inr False)"

fun has_room :: "Board2D \<Rightarrow> board_call \<Rightarrow> bool" where
  "has_room b (Put pc s) = (pieceCount b pc < 16)"
| "has_room b (Remove s) = True"

text \<open>Every call of the sequence is allowed, or has room, on the board it is made on.\<close>

fun calls_allowed :: "Board2D \<Rightarrow> board_call list \<Rightarrow> bool" where
  "calls_allowed b [] = True"
| "calls_allowed b (c # cs) =
     (call_allowed b c \<and>
      (case do_call b c of Inr b' \<Rightarrow> calls_allowed b' cs | Inl e \<Rightarrow> True))"

fun calls_have_room :: "Board2D \<Rightarrow> board_call list \<Rightarrow> bool" where
  "calls_have_room b [] = True"
| "calls_have_room b (c # cs) =
     (has_room b c \<and>
      (case do_call b c of Inr b' \<Rightarrow> calls_have_room b' cs | Inl e \<Rightarrow> True))"

text \<open>
  The location collection of a piece (the entries of its list below its count), and the
  squares where \<^verbatim>\<open>piece_on\<close> reports the piece.
\<close>

definition piece_squares :: "Board2D \<Rightarrow> Piece \<Rightarrow> Square2D set" where
  "piece_squares b pc = set (map (pieceList b pc) [0..pieceCount b pc - 1])"

definition squares_holding :: "Board2D \<Rightarrow> Piece \<Rightarrow> Square2D set" where
  "squares_holding b pc = set (filter (\<lambda>s. piece_on b s = Inr pc) [0..SQUARE_NB - 1])"

text \<open>
  The claim's agreement: for each of the twelve pieces the two sets are equal, and the
  reverse index of each square that holds the piece is the place of the square in the
  piece's list.
\<close>

definition bookkeeping_agrees :: "Board2D \<Rightarrow> bool" where
  "bookkeeping_agrees b =
     (\<forall>pc \<in> set Pieces.
        piece_squares b pc = squares_holding b pc \<and>
        (\<forall>s \<in> squares_holding b pc.
           in_array (pieceCount b pc) (index b s) \<and> pieceList b pc (index b s) = s))"

text \<open>
  The invariant the two functions keep. For one piece: its count is between 0 and 16,
  every entry below the count is a square of the board that holds the piece and points
  back to the entry, and every square that holds the piece is such an entry.
\<close>

definition list_inv :: "Board2D \<Rightarrow> Piece \<Rightarrow> bool" where
  "list_inv b pc =
     (0 \<le> pieceCount b pc \<and> pieceCount b pc \<le> 16 \<and>
      (\<forall>i. in_array (pieceCount b pc) i \<longrightarrow>
           in_array SQUARE_NB (pieceList b pc i) \<and> board b (pieceList b pc i) = pc \<and>
           index b (pieceList b pc i) = i) \<and>
      (\<forall>s. in_array SQUARE_NB s \<and> board b s = pc \<longrightarrow>
           in_array (pieceCount b pc) (index b s) \<and> pieceList b pc (index b s) = s))"

text \<open>
  \<^verbatim>\<open>pieceCount[make_piece(c, ALL_PIECES)]\<close>, entries 0 and 8, count all the pieces of a
  colour.
\<close>

definition totals_inv :: "Board2D \<Rightarrow> bool" where
  "totals_inv b =
     (pieceCount b 0 =
        pieceCount b W_PAWN + pieceCount b W_KNIGHT + pieceCount b W_BISHOP +
        pieceCount b W_ROOK + pieceCount b W_QUEEN + pieceCount b W_KING \<and>
      pieceCount b 8 =
        pieceCount b B_PAWN + pieceCount b B_KNIGHT + pieceCount b B_BISHOP +
        pieceCount b B_ROOK + pieceCount b B_QUEEN + pieceCount b B_KING)"

definition board_inv :: "Board2D \<Rightarrow> bool" where
  "board_inv b =
     ((\<forall>s. in_array SQUARE_NB s \<longrightarrow> board b s = NO_PIECE \<or> board b s \<in> set Pieces) \<and>
      (\<forall>pc \<in> set Pieces. list_inv b pc) \<and>
      totals_inv b)"

text \<open>Seventeen white pawns, on the squares a1 to a3.\<close>

definition seventeen_pawns :: "board_call list" where
  "seventeen_pawns = map (Put W_PAWN) [0..16]"

text \<open>
  On the cleared board: a king on a1, a knight on b1 and a king on d4, then the king of d4
  moves to c4 (test.cpp's \<^verbatim>\<open>remove_piece(SQ_D4); put_piece(B_KING, SQ_C4)\<close>) and the
  king of a1 is taken off.
\<close>

definition test_calls :: "board_call list" where
  "test_calls =
     [Put W_KING 0, Put W_KNIGHT 1, Put B_KING 27, Remove 27, Put B_KING 26, Remove 0]"

section \<open>Basic facts\<close>

lemma ebind_eq_Inr: "ebind m f = Inr y \<longleftrightarrow> (\<exists>x. m = Inr x \<and> f x = Inr y)"
  by (cases m) simp_all

lemma ebind_eq_Inl: "ebind m f = Inl e \<longleftrightarrow> m = Inl e \<or> (\<exists>x. m = Inr x \<and> f x = Inl e)"
  by (cases m) simp_all

lemma is_ok_iff: "is_ok r \<longleftrightarrow> (\<exists>x. r = Inr x)"
  by (cases r) simp_all

lemma is_ok_projr: "is_ok r \<Longrightarrow> r = Inr (projr r)"
  by (cases r) simp_all

lemma int_result_eq_Inr:
  "int_result x = Inr y \<longleftrightarrow> y = x \<and> - 2147483648 \<le> x \<and> x \<le> 2147483647"
  by (auto simp: int_result_def)

lemma int_result_never_asserts: "int_result x \<noteq> Inl AssertionFailed"
  by (simp add: int_result_def)

lemma vector_at_eq_Inr:
  "vector_at v i = Inr x \<longleftrightarrow> 0 \<le> i \<and> i < int (length v) \<and> x = v ! nat i"
  by (auto simp: vector_at_def)

lemma vector_at_never_asserts: "vector_at v i \<noteq> Inl AssertionFailed"
  by (simp add: vector_at_def)

lemma passTurn_twice: "passTurn (passTurn b) = b"
  by (cases "sideToMove b") (simp_all add: passTurn_def other_color_def Color_of_int_def)

lemma other_color_simps [simp]: "other_color WHITE = BLACK" "other_color BLACK = WHITE"
  by (simp_all add: other_color_def Color_of_int_def)

subsection \<open>The position of test.cpp\<close>

lemma Board2D_set_test_fen: "Board2D_set test_fen = Inr test_board"
proof -
  have "is_ok (Board2D_set test_fen)"
    by (simp add: test_fen_def Board2D_set_def isspace_def isdigit_def PieceToChar_def
        int_result_def put_piece_def in_array_def Board2D_cleared_def make_piece_def
        color_of_def Color_of_int_def Let_def)
  then show ?thesis
    unfolding test_board_def by (rule is_ok_projr)
qed

lemma sideToMove_test_board: "sideToMove test_board = WHITE"
proof -
  have "map_sum id sideToMove (Board2D_set test_fen) = Inr WHITE"
    by (simp add: test_fen_def Board2D_set_def isspace_def isdigit_def PieceToChar_def
        int_result_def put_piece_def in_array_def Board2D_cleared_def make_piece_def
        color_of_def Color_of_int_def Let_def)
  then show ?thesis
    by (simp add: Board2D_set_test_fen)
qed

lemma central_timeline_test:
  "fen_timeline test_fen =
     Inr \<lparr>startTime = 1, startColor = WHITE, active = True, boards = [test_board],
          printIndented = True\<rparr>"
  by (simp add: fen_timeline_def Board2D_set_test_fen activate_def append_board_def
      Timeline_init_def side_to_move_def sideToMove_test_board)

lemma Position_set_test_value:
  "Position_set [] [test_fen] =
     Inr \<lparr>negativeLines = [],
          positiveLines = [\<lparr>startTime = 1, startColor = WHITE, active = True,
                            boards = [test_board], printIndented = True\<rparr>],
          activePositiveLines = 0, activeNegativeLines = 0, timeOfPresent = 1,
          pos_sideToMove = WHITE\<rparr>"
  by (simp add: Position_set_def to_int_def to_short_def central_timeline_test vector_at_def
      first_board_def side_to_move_def sideToMove_test_board)

lemma Position_set_test: "Position_set [] [test_fen] = Inr test_position"
  by (simp add: test_position_def Position_set_test_value)

lemma test_position_value:
  "test_position =
     \<lparr>negativeLines = [],
      positiveLines = [\<lparr>startTime = 1, startColor = WHITE, active = True,
                        boards = [test_board], printIndented = True\<rparr>],
      activePositiveLines = 0, activeNegativeLines = 0, timeOfPresent = 1,
      pos_sideToMove = WHITE\<rparr>"
  by (simp add: test_position_def Position_set_test_value)

section \<open>Position::new_timeline, case by case\<close>

lemma new_timeline_arms:
  assumes "new_timeline p l t = Inr (p', nb)"
  obtains line src st where
    "timeline p l = Inr line"
    "board_on_turn line t (pos_sideToMove p) = Inr src"
    "nb = passTurn src"
    "int_result (t + color_int (pos_sideToMove p)) = Inr st"
    "pos_sideToMove p = WHITE \<Longrightarrow>
       new_timeline_white p (append_board (Timeline_init st (side_to_move nb)) nb)
         (positive_timeline_count p) (negative_timeline_count p) = Inr p'"
    "pos_sideToMove p = BLACK \<Longrightarrow>
       new_timeline_black p (append_board (Timeline_init st (side_to_move nb)) nb)
         (positive_timeline_count p) (negative_timeline_count p) = Inr p'"
  using assms
  by (cases "pos_sideToMove p") (auto simp: new_timeline_def ebind_eq_Inr Let_def)

lemma new_timeline_white_present:
  "new_timeline_white p nt pc nc = Inr p' \<Longrightarrow> timeOfPresent p' \<le> timeOfPresent p"
  by (auto simp: new_timeline_white_def ebind_eq_Inr Let_def split: if_splits)

lemma new_timeline_black_present:
  "new_timeline_black p nt pc nc = Inr p' \<Longrightarrow> timeOfPresent p' \<le> timeOfPresent p"
  by (auto simp: new_timeline_black_def ebind_eq_Inr Let_def split: if_splits)

text \<open>White's first branch from the position of test.cpp, as test.cpp calls it.\<close>

lemma new_timeline_test_position:
  "new_timeline test_position 0 1 =
     Inr (test_position
            \<lparr>activePositiveLines := 1,
             positiveLines := positiveLines test_position @
               [\<lparr>startTime = 1, startColor = BLACK, active = True,
                 boards = [passTurn test_board], printIndented = True\<rparr>]\<rparr>,
          passTurn test_board)"
  by (simp add: new_timeline_def test_position_value timeline_def vector_at_def
      board_on_turn_def plyToBoardIdx_def int_result_def Let_def passTurn_def
      sideToMove_test_board side_to_move_def append_board_def Timeline_init_def
      positive_timeline_count_def negative_timeline_count_def to_int_def to_short_def
      new_timeline_white_def activate_def start_time_def)

lemma new_timeline_unfold:
  assumes "new_timeline p l t = Inr (p', nb)"
  shows "\<exists>line src.
           timeline p l = Inr line \<and>
           board_on_turn line t (pos_sideToMove p) = Inr src \<and>
           nb = passTurn src \<and>
           (if pos_sideToMove p = WHITE then new_timeline_white else new_timeline_black) p
              (append_board
                 (Timeline_init (t + color_int (pos_sideToMove p)) (side_to_move nb)) nb)
              (positive_timeline_count p) (negative_timeline_count p) = Inr p'"
  using assms
  by (auto simp: new_timeline_def ebind_eq_Inr Let_def int_result_eq_Inr split: if_splits)

lemma new_timeline_white_cases:
  assumes "new_timeline_white p nt pc nc = Inr p'"
  shows "((pc = nc \<or> pc = nc - 1) \<and>
          p' = p\<lparr>activePositiveLines := to_short (activePositiveLines p + 1),
                 timeOfPresent := min (timeOfPresent p) (startTime nt),
                 positiveLines := positiveLines p @ [activate nt]\<rparr>)
       \<or> (pc < nc - 1 \<and> 0 \<le> pc + 1 \<and> pc + 1 < int (length (negativeLines p)) \<and>
          \<not> active (negativeLines p ! nat (pc + 1)) \<and>
          p' = p\<lparr>activePositiveLines := to_short (activePositiveLines p + 1),
                 negativeLines := (negativeLines p)
                    [nat (pc + 1) := activate (negativeLines p ! nat (pc + 1))],
                 activeNegativeLines := to_short (activeNegativeLines p + 1),
                 timeOfPresent := min (timeOfPresent p)
                    (min (startTime nt) (startTime (negativeLines p ! nat (pc + 1)))),
                 positiveLines := positiveLines p @ [activate nt]\<rparr>)
       \<or> (pc > nc \<and> p' = p\<lparr>positiveLines := positiveLines p @ [nt]\<rparr>)"
  using assms
  by (auto simp: new_timeline_white_def ebind_eq_Inr Let_def int_result_eq_Inr vector_at_eq_Inr
      activate_def start_time_def is_active_def split: if_splits)

lemma new_timeline_black_cases:
  assumes "new_timeline_black p nt pc nc = Inr p'"
  shows "((nc = pc \<or> nc = pc - 1) \<and>
          p' = p\<lparr>activeNegativeLines := to_short (activeNegativeLines p + 1),
                 timeOfPresent := min (timeOfPresent p) (startTime nt),
                 negativeLines := negativeLines p @ [activate nt]\<rparr>)
       \<or> (nc < pc - 1 \<and> 0 \<le> nc + 2 \<and> nc + 2 < int (length (positiveLines p)) \<and>
          \<not> active (positiveLines p ! nat (nc + 2)) \<and>
          p' = p\<lparr>activeNegativeLines := to_short (activeNegativeLines p + 1),
                 positiveLines := (positiveLines p)
                    [nat (nc + 2) := activate (positiveLines p ! nat (nc + 2))],
                 timeOfPresent := min (timeOfPresent p)
                    (min (startTime nt) (startTime (positiveLines p ! nat (nc + 2)))),
                 negativeLines := negativeLines p @ [activate nt]\<rparr>)
       \<or> (nc > pc \<and> p' = p\<lparr>negativeLines := negativeLines p @ [nt]\<rparr>)"
  using assms
  by (auto simp: new_timeline_black_def ebind_eq_Inr Let_def int_result_eq_Inr vector_at_eq_Inr
      activate_def start_time_def is_active_def split: if_splits)

text \<open>The timeline a call creates: last on the mover's side, in each of the three cases.\<close>

lemma new_timeline_white_created:
  assumes "new_timeline_white p nt pc nc = Inr p'"
  shows "\<exists>created. positiveLines p' = positiveLines p @ [created] \<and>
           (created = nt \<or> created = activate nt)"
  using new_timeline_white_cases [OF assms] by auto

lemma new_timeline_black_created:
  assumes "new_timeline_black p nt pc nc = Inr p'"
  shows "\<exists>created. negativeLines p' = negativeLines p @ [created] \<and>
           (created = nt \<or> created = activate nt)"
  using new_timeline_black_cases [OF assms] by auto

lemma new_timeline_created:
  assumes "new_timeline p l t = Inr (p', nb)"
  shows "\<exists>created. mover_lines (pos_sideToMove p) p' = mover_lines (pos_sideToMove p) p @ [created]
           \<and> boards created = [nb] \<and> startColor created = sideToMove nb
           \<and> startTime created = t + color_int (pos_sideToMove p)"
proof (cases "pos_sideToMove p")
  case WHITE
  with new_timeline_unfold [OF assms] obtain nt where
    "new_timeline_white p nt (positive_timeline_count p) (negative_timeline_count p) = Inr p'"
    "nt = append_board (Timeline_init t (side_to_move nb)) nb"
    by auto
  from new_timeline_white_created [OF this(1)] this(2) WHITE show ?thesis
    by (auto simp: append_board_def Timeline_init_def activate_def side_to_move_def)
next
  case BLACK
  with new_timeline_unfold [OF assms] obtain nt where
    "new_timeline_black p nt (positive_timeline_count p) (negative_timeline_count p) = Inr p'"
    "nt = append_board (Timeline_init (t + 1) (side_to_move nb)) nb"
    by auto
  from new_timeline_black_created [OF this(1)] this(2) BLACK show ?thesis
    by (auto simp: append_board_def Timeline_init_def activate_def side_to_move_def)
qed

subsection \<open>Concrete positions\<close>

lemmas branch_eval =
  new_timeline_def new_timeline_white_def new_timeline_black_def timeline_def vector_at_def
  board_on_turn_def plyToBoardIdx_def int_result_def Let_def passTurn_def side_to_move_def
  append_board_def Timeline_init_def positive_timeline_count_def negative_timeline_count_def
  to_int_def to_short_def activate_def start_time_def is_active_def

lemma white_once_run:
  "position_run test_position [Branch 0 1] = Inr white_once"
  unfolding white_once_def
  by (rule is_ok_projr) (simp add: test_position_value branch_eval sideToMove_test_board)

lemma white_once_value:
  "white_once =
     \<lparr>negativeLines = [],
      positiveLines =
        [\<lparr>startTime = 1, startColor = WHITE, active = True, boards = [test_board],
          printIndented = True\<rparr>,
         \<lparr>startTime = 1, startColor = BLACK, active = True, boards = [passTurn test_board],
          printIndented = True\<rparr>],
      activePositiveLines = 1, activeNegativeLines = 0, timeOfPresent = 1,
      pos_sideToMove = WHITE\<rparr>"
  unfolding white_once_def
  by (simp add: test_position_value branch_eval sideToMove_test_board)

lemma new_timeline_white_once:
  "new_timeline white_once 0 1 =
     Inr (white_once
            \<lparr>positiveLines := positiveLines white_once @
               [\<lparr>startTime = 1, startColor = BLACK, active = False,
                 boards = [passTurn test_board], printIndented = True\<rparr>]\<rparr>,
          passTurn test_board)"
  by (simp add: white_once_value branch_eval sideToMove_test_board)

lemma Board2D_set_black_fen: "Board2D_set black_fen = Inr black_board"
proof -
  have "is_ok (Board2D_set black_fen)"
    by (simp add: black_fen_def Board2D_set_def isspace_def isdigit_def PieceToChar_def
        int_result_def put_piece_def in_array_def Board2D_cleared_def make_piece_def
        color_of_def Color_of_int_def Let_def)
  then show ?thesis
    unfolding black_board_def by (rule is_ok_projr)
qed

lemma sideToMove_black_board: "sideToMove black_board = BLACK"
proof -
  have "map_sum id sideToMove (Board2D_set black_fen) = Inr BLACK"
    by (simp add: black_fen_def Board2D_set_def isspace_def isdigit_def PieceToChar_def
        int_result_def put_piece_def in_array_def Board2D_cleared_def make_piece_def
        color_of_def Color_of_int_def Let_def)
  then show ?thesis
    by (simp add: Board2D_set_black_fen)
qed

lemma Position_set_black_value:
  "Position_set [] [black_fen] =
     Inr \<lparr>negativeLines = [],
          positiveLines = [\<lparr>startTime = 1, startColor = BLACK, active = True,
                            boards = [black_board], printIndented = True\<rparr>],
          activePositiveLines = 0, activeNegativeLines = 0, timeOfPresent = 1,
          pos_sideToMove = BLACK\<rparr>"
  by (simp add: Position_set_def to_int_def to_short_def fen_timeline_def vector_at_def
      first_board_def side_to_move_def sideToMove_black_board Board2D_set_black_fen
      activate_def append_board_def Timeline_init_def)

lemma Position_set_black: "Position_set [] [black_fen] = Inr black_position"
  by (simp add: black_position_def Position_set_black_value)

lemma black_position_value:
  "black_position =
     \<lparr>negativeLines = [],
      positiveLines = [\<lparr>startTime = 1, startColor = BLACK, active = True,
                        boards = [black_board], printIndented = True\<rparr>],
      activePositiveLines = 0, activeNegativeLines = 0, timeOfPresent = 1,
      pos_sideToMove = BLACK\<rparr>"
  by (simp add: black_position_def Position_set_black_value)

lemma black_position_extended_run_value:
  "ebind (new_timeline black_position 0 1) (\<lambda>(p, newBoard).
     timeline_append_board p (- 1) newBoard) =
   Inr \<lparr>negativeLines =
          [\<lparr>startTime = 2, startColor = WHITE, active = True,
            boards = [passTurn black_board, passTurn black_board], printIndented = True\<rparr>],
        positiveLines = [\<lparr>startTime = 1, startColor = BLACK, active = True,
                          boards = [black_board], printIndented = True\<rparr>],
        activePositiveLines = 0, activeNegativeLines = 1, timeOfPresent = 1,
        pos_sideToMove = BLACK\<rparr>"
  by (simp add: black_position_value timeline_append_board_def branch_eval
      sideToMove_black_board)

lemma black_position_extended_value:
  "black_position_extended =
   \<lparr>negativeLines =
          [\<lparr>startTime = 2, startColor = WHITE, active = True,
            boards = [passTurn black_board, passTurn black_board], printIndented = True\<rparr>],
        positiveLines = [\<lparr>startTime = 1, startColor = BLACK, active = True,
                          boards = [black_board], printIndented = True\<rparr>],
        activePositiveLines = 0, activeNegativeLines = 1, timeOfPresent = 1,
        pos_sideToMove = BLACK\<rparr>"
  by (simp add: black_position_extended_def black_position_extended_run_value)

lemma black_position_extended_run:
  "ebind (new_timeline black_position 0 1) (\<lambda>(p, newBoard).
     timeline_append_board p (- 1) newBoard) = Inr black_position_extended"
  by (simp add: black_position_extended_value black_position_extended_run_value)

lemma new_timeline_black_position_extended:
  "new_timeline black_position_extended (- 1) 2 =
     Inr (black_position_extended
            \<lparr>negativeLines := negativeLines black_position_extended @
               [\<lparr>startTime = 3, startColor = BLACK, active = False,
                 boards = [black_board], printIndented = True\<rparr>]\<rparr>,
          black_board)"
  by (simp add: black_position_extended_value new_timeline_def timeline_def
      board_on_turn_def plyToBoardIdx_def int_result_def vector_at_def Let_def passTurn_twice
      positive_timeline_count_def negative_timeline_count_def to_int_def
      new_timeline_black_def side_to_move_def sideToMove_black_board append_board_def
      Timeline_init_def)

lemma test_central_value:
  "test_central =
     \<lparr>startTime = 1, startColor = WHITE, active = True, boards = [test_board],
      printIndented = True\<rparr>"
  by (simp add: test_central_def test_position_value timeline_def vector_at_def)

lemma sideToMove_passTurn: "sideToMove (passTurn b) = other_color (sideToMove b)"
  by (simp add: passTurn_def)

section \<open>The present never moves forward\<close>

text \<open>
  Claim C10. Every call of \<^verbatim>\<open>new_timeline\<close> that returns leaves \<^verbatim>\<open>time_of_present()\<close>
  less than or equal to its value before the call: the only assignments to
  \<^verbatim>\<open>timeOfPresent\<close> in \<^verbatim>\<open>new_timeline\<close> take a minimum with the old value.
\<close>

theorem present_never_later:
  "new_timeline p branchLine branchTime = Inr (p', newBoard) \<Longrightarrow>
   time_of_present p' \<le> time_of_present p"
  by (cases "pos_sideToMove p")
     (auto simp: time_of_present_def elim!: new_timeline_arms
           dest: new_timeline_white_present new_timeline_black_present)

theorem present_never_later_witness:
  "is_ok (new_timeline test_position 0 1) \<and>
   time_of_present (fst (projr (new_timeline test_position 0 1)))
     \<le> time_of_present test_position"
proof -
  have ok: "is_ok (new_timeline test_position 0 1)"
    by (simp add: new_timeline_test_position)
  then obtain p' nb where r: "new_timeline test_position 0 1 = Inr (p', nb)"
    by (auto simp: is_ok_iff)
  from present_never_later [OF r] ok r show ?thesis
    by simp
qed

section \<open>The coordinates of a new timeline\<close>

text \<open>
  Claim C3, as amended. A call of \<^verbatim>\<open>new_timeline(branchLine, branchTime)\<close> that
  returns has found the timeline and \<open>src\<close>, the board of the pair; the timeline it
  creates is the last of the mover's vector, starts at \<open>branchTime\<close> for White and at
  \<open>branchTime + 1\<close> for Black, holds one board, the copy of \<open>src\<close> with its side to move
  flipped, and has that board's side to move as its start colour. The flipped side is
  the opponent of the mover whenever \<open>src\<close> had the mover to move: \<^verbatim>\<open>passTurn\<close> flips the
  board's own colour and never looks at \<^verbatim>\<open>Position::sideToMove\<close>.
\<close>

theorem new_timeline_coordinates:
  assumes "new_timeline p branchLine branchTime = Inr (p', newBoard)"
  shows "\<exists>line src created.
           timeline p branchLine = Inr line \<and>
           board_on_turn line branchTime (pos_side_to_move p) = Inr src \<and>
           mover_lines (pos_side_to_move p) p' = mover_lines (pos_side_to_move p) p @ [created] \<and>
           start_time created =
             branchTime + (if pos_side_to_move p = WHITE then 0 else 1) \<and>
           boards created = [newBoard] \<and>
           newBoard = src\<lparr>sideToMove := other_color (side_to_move src)\<rparr> \<and>
           start_color created = side_to_move newBoard \<and>
           (side_to_move src = pos_side_to_move p \<longrightarrow>
              side_to_move newBoard = other_color (pos_side_to_move p))"
proof -
  from new_timeline_unfold [OF assms] obtain line src where
    l: "timeline p branchLine = Inr line" and
    s: "board_on_turn line branchTime (pos_sideToMove p) = Inr src" and
    nb: "newBoard = passTurn src"
    by blast
  from new_timeline_created [OF assms] obtain created where
    c: "mover_lines (pos_sideToMove p) p' = mover_lines (pos_sideToMove p) p @ [created]"
       "boards created = [newBoard]" "startColor created = sideToMove newBoard"
       "startTime created = branchTime + color_int (pos_sideToMove p)"
    by blast
  have "start_time created = branchTime + (if pos_side_to_move p = WHITE then 0 else 1)"
    using c(4) by (cases "pos_sideToMove p") (simp_all add: start_time_def pos_side_to_move_def)
  with l s nb c show ?thesis
    by (auto simp: pos_side_to_move_def start_color_def side_to_move_def passTurn_def)
qed

theorem new_timeline_coordinates_witness:
  "\<exists>line src created.
     timeline test_position 0 = Inr line \<and>
     board_on_turn line 1 (pos_side_to_move test_position) = Inr src \<and>
     mover_lines (pos_side_to_move test_position) (fst (projr (new_timeline test_position 0 1))) =
       mover_lines (pos_side_to_move test_position) test_position @ [created] \<and>
     start_time created = 1 \<and>
     boards created = [snd (projr (new_timeline test_position 0 1))] \<and>
     start_color created = BLACK \<and>
     side_to_move src = WHITE \<and>
     side_to_move (snd (projr (new_timeline test_position 0 1))) = BLACK"
proof -
  have "is_ok (new_timeline test_position 0 1)"
    by (simp add: new_timeline_test_position)
  then obtain p' nb where r: "new_timeline test_position 0 1 = Inr (p', nb)"
    by (auto simp: is_ok_iff)
  have m: "pos_side_to_move test_position = WHITE"
    by (simp add: pos_side_to_move_def test_position_value)
  have nb: "side_to_move nb = BLACK"
    using r unfolding new_timeline_test_position
    by (auto simp: side_to_move_def passTurn_def sideToMove_test_board)
  from new_timeline_coordinates [OF r] obtain line src created where
    *: "timeline test_position 0 = Inr line"
       "board_on_turn line 1 (pos_side_to_move test_position) = Inr src"
       "mover_lines (pos_side_to_move test_position) p' =
          mover_lines (pos_side_to_move test_position) test_position @ [created]"
       "start_time created = 1 + (if pos_side_to_move test_position = WHITE then 0 else 1)"
       "boards created = [nb]"
       "nb = src\<lparr>sideToMove := other_color (side_to_move src)\<rparr>"
       "start_color created = side_to_move nb"
    by blast
  from *(6) nb have "side_to_move src = WHITE"
    by (cases "sideToMove src") (auto simp: side_to_move_def)
  with * m nb r show ?thesis
    by auto
qed

text \<open>
  The claim as stated says the new board always has the opponent of the mover to move.
  In \<open>black_position_extended\<close> Black branches from timeline -1 at time 2; the board of
  that ply is the unchanged copy a caller appended (White to move on it), so the new
  board has Black, the mover, to move.
\<close>

theorem new_board_can_be_the_movers:
  "is_ok (new_timeline black_position_extended (- 1) 2) \<and>
   pos_side_to_move black_position_extended = BLACK \<and>
   side_to_move (snd (projr (new_timeline black_position_extended (- 1) 2))) = BLACK \<and>
   other_color (pos_side_to_move black_position_extended) = WHITE"
  unfolding new_timeline_black_position_extended
  by (simp add: black_position_extended_value pos_side_to_move_def
      side_to_move_def sideToMove_black_board)

section \<open>A branch on the side with more timelines\<close>

text \<open>
  Claim C4, as amended. When the mover's side has more timelines than the other
  (\<open>own_count p > opp_count p\<close>, what is left of \<^verbatim>\<open>ownCount > oppCount - 1\<close> once the
  first case of the rule has taken \<^verbatim>\<open>ownCount == oppCount\<close>), a call that returns
  has appended the new timeline to the mover's vector with its active flag false, and
  has changed nothing else: both counters, the present and the other vector are as
  before.
\<close>

theorem surplus_branch_stays_inactive:
  assumes "new_timeline p branchLine branchTime = Inr (p', newBoard)"
    and "opp_count p < own_count p"
  shows "\<exists>created.
           mover_lines (pos_side_to_move p) p' = mover_lines (pos_side_to_move p) p @ [created] \<and>
           boards created = [newBoard] \<and>
           \<not> is_active created \<and>
           mover_lines (other_color (pos_side_to_move p)) p' =
             mover_lines (other_color (pos_side_to_move p)) p \<and>
           activePositiveLines p' = activePositiveLines p \<and>
           activeNegativeLines p' = activeNegativeLines p \<and>
           time_of_present p' = time_of_present p"
proof (cases "pos_sideToMove p")
  case WHITE
  with new_timeline_unfold [OF assms(1)] obtain nt where
    nt: "new_timeline_white p nt (positive_timeline_count p) (negative_timeline_count p) = Inr p'"
        "nt = append_board (Timeline_init branchTime (side_to_move newBoard)) newBoard"
    by auto
  from assms(2) WHITE have "negative_timeline_count p < positive_timeline_count p"
    by (simp add: own_count_def opp_count_def)
  with new_timeline_white_cases [OF nt(1)]
  have "p' = p\<lparr>positiveLines := positiveLines p @ [nt]\<rparr>"
    by auto
  with nt(2) WHITE show ?thesis
    by (simp add: pos_side_to_move_def time_of_present_def is_active_def append_board_def
        Timeline_init_def)
next
  case BLACK
  with new_timeline_unfold [OF assms(1)] obtain nt where
    nt: "new_timeline_black p nt (positive_timeline_count p) (negative_timeline_count p) = Inr p'"
        "nt = append_board (Timeline_init (branchTime + 1) (side_to_move newBoard)) newBoard"
    by auto
  from assms(2) BLACK have "positive_timeline_count p < negative_timeline_count p"
    by (simp add: own_count_def opp_count_def)
  with new_timeline_black_cases [OF nt(1)]
  have "p' = p\<lparr>negativeLines := negativeLines p @ [nt]\<rparr>"
    by auto
  with nt(2) BLACK show ?thesis
    by (simp add: pos_side_to_move_def time_of_present_def is_active_def append_board_def
        Timeline_init_def)
qed

theorem surplus_branch_stays_inactive_witness:
  "opp_count white_once < own_count white_once \<and>
   is_ok (new_timeline white_once 0 1) \<and>
   (\<exists>created.
      positiveLines (fst (projr (new_timeline white_once 0 1))) =
        positiveLines white_once @ [created] \<and>
      \<not> is_active created \<and>
      activePositiveLines (fst (projr (new_timeline white_once 0 1))) = 1 \<and>
      activeNegativeLines (fst (projr (new_timeline white_once 0 1))) = 0)"
proof -
  have c: "opp_count white_once < own_count white_once"
    by (simp add: own_count_def opp_count_def white_once_value positive_timeline_count_def
        negative_timeline_count_def to_int_def)
  have ok: "is_ok (new_timeline white_once 0 1)"
    by (simp add: new_timeline_white_once)
  then obtain p' nb where r: "new_timeline white_once 0 1 = Inr (p', nb)"
    by (auto simp: is_ok_iff)
  have m: "pos_side_to_move white_once = WHITE"
    by (simp add: pos_side_to_move_def white_once_value)
  from surplus_branch_stays_inactive [OF r c] m c ok r
  show ?thesis
    by (auto simp: white_once_value)
qed

text \<open>
  The claim as stated takes every call with \<^verbatim>\<open>ownCount > oppCount - 1\<close>. White's first
  branch in the position of test.cpp has \<open>0 > 0 - 1\<close>, and the rule's first case
  (\<^verbatim>\<open>pos_cnt == neg_cnt\<close>) activates the new timeline and counts it.
\<close>

theorem equal_counts_branch_is_activated:
  "opp_count test_position - 1 < own_count test_position \<and>
   is_ok (new_timeline test_position 0 1) \<and>
   is_active (last (positiveLines (fst (projr (new_timeline test_position 0 1))))) \<and>
   activePositiveLines test_position = 0 \<and>
   activePositiveLines (fst (projr (new_timeline test_position 0 1))) = 1"
  unfolding new_timeline_test_position
  by (simp add: is_active_def own_count_def opp_count_def test_position_value
      positive_timeline_count_def negative_timeline_count_def to_int_def)

section \<open>Asking a timeline whether it has a board\<close>

lemma plyToBoardIdx_value:
  "plyToBoardIdx line time c = Inr idx \<Longrightarrow>
   idx = 2 * (time - startTime line) + (color_int c - color_int (startColor line))"
  by (auto simp: plyToBoardIdx_def ebind_eq_Inr int_result_eq_Inr Let_def)

lemma board_on_turn_exists:
  "is_ok (board_on_turn line time c) \<longleftrightarrow>
     (\<exists>idx. plyToBoardIdx line time c = Inr idx \<and> 0 \<le> idx \<and> idx < int (length (boards line)))"
  by (auto simp: board_on_turn_def is_ok_iff ebind_eq_Inr vector_at_eq_Inr)

lemma has_board_on_turn_is_negative_index:
  "has_board_on_turn line time c = Inr r \<longleftrightarrow>
     (\<exists>idx. plyToBoardIdx line time c = Inr idx \<and> r = (idx < 0))"
  by (auto simp: has_board_on_turn_def ebind_eq_Inr)

text \<open>
  Claim C5 (the code differs). \<^verbatim>\<open>has_board_on_turn\<close> returns \<^verbatim>\<open>idx < 0\<close>: true exactly
  when the computed index is negative, with no test against the number of boards. On the
  central timeline of test.cpp's position (one board, at time 1 for White) it answers
  false for the board that exists, true for time 0 (index -2) and false for ply 1, which
  does not exist either.
\<close>

theorem has_board_on_turn_inverted:
  "board_on_turn test_central 1 WHITE = Inr test_board \<and>
   has_board_on_turn test_central 1 WHITE = Inr False \<and>
   plyToBoardIdx test_central 0 WHITE = Inr (- 2) \<and>
   has_board_on_turn test_central 0 WHITE = Inr True \<and>
   plyToBoardIdx test_central 1 BLACK = Inr 1 \<and>
   board_on_turn test_central 1 BLACK = Inl UndefinedBehaviour \<and>
   has_board_on_turn test_central 1 BLACK = Inr False"
  by (simp add: test_central_value has_board_on_turn_def board_on_turn_def plyToBoardIdx_def
      int_result_def vector_at_def)

section \<open>Position::set\<close>

lemma to_int_le: "- 2147483648 \<le> x \<Longrightarrow> to_int x \<le> x"
proof -
  assume "- 2147483648 \<le> x"
  then have "(x + 2147483648) mod 4294967296 \<le> x + 2147483648"
    by (intro zmod_le_nonneg_dividend) simp
  then show ?thesis by (simp add: to_int_def)
qed

lemma to_int_id: "- 2147483648 \<le> x \<Longrightarrow> x \<le> 2147483647 \<Longrightarrow> to_int x = x"
  by (simp add: to_int_def)

lemma to_short_id: "- 32768 \<le> x \<Longrightarrow> x \<le> 32767 \<Longrightarrow> to_short x = x"
  by (simp add: to_short_def)

lemma fen_timeline_eq_Inr:
  "fen_timeline fen = Inr line \<longleftrightarrow>
     (\<exists>b. Board2D_set fen = Inr b \<and>
          line = \<lparr>startTime = 1, startColor = sideToMove b, active = True, boards = [b],
                  printIndented = True\<rparr>)"
  by (auto simp: fen_timeline_def ebind_eq_Inr activate_def append_board_def Timeline_init_def
      side_to_move_def)

lemma fen_timeline_initial: "fen_timeline fen = Inr line \<Longrightarrow> initial_timeline fen line"
  by (auto simp: fen_timeline_eq_Inr initial_timeline_def start_time_def start_color_def
      side_to_move_def is_active_def)

lemma fen_timeline_ok: "is_ok (Board2D_set fen) \<Longrightarrow> is_ok (fen_timeline fen)"
  by (auto simp: fen_timeline_def is_ok_iff)

lemma set_positive_eq_Inr:
  "set_positive fens acc = Inr r \<Longrightarrow>
   \<exists>ls. r = acc @ ls \<and> list_all2 initial_timeline fens ls"
proof (induction fens arbitrary: acc)
  case Nil
  then show ?case by simp
next
  case (Cons fen fens)
  from Cons.prems obtain line where
    line: "fen_timeline fen = Inr line" and
    rest: "set_positive fens (acc @ [line]) = Inr r"
    by (auto simp: ebind_eq_Inr)
  from Cons.IH [OF rest] obtain ls where
    "r = (acc @ [line]) @ ls" "list_all2 initial_timeline fens ls"
    by blast
  with fen_timeline_initial [OF line] have
    "r = acc @ (line # ls) \<and> list_all2 initial_timeline (fen # fens) (line # ls)"
    by simp
  then show ?case by blast
qed

lemma set_positive_ok:
  "\<forall>fen \<in> set fens. is_ok (Board2D_set fen) \<Longrightarrow> is_ok (set_positive fens acc)"
proof (induction fens arbitrary: acc)
  case Nil
  then show ?case by simp
next
  case (Cons fen fens)
  then have "is_ok (fen_timeline fen)"
    by (simp add: fen_timeline_ok)
  then obtain line where "fen_timeline fen = Inr line"
    by (auto simp: is_ok_iff)
  with Cons show ?case by simp
qed

lemma set_negative_eq_Inr:
  "set_negative fens i acc = Inr r \<Longrightarrow> i < int (length fens) \<Longrightarrow>
   \<exists>ls. r = acc @ ls \<and> list_all2 initial_timeline (rev (take (nat (i + 1)) fens)) ls"
proof (induction fens i acc rule: set_negative.induct)
  case (1 fens i acc)
  show ?case
  proof (cases "i \<ge> 0")
    case False
    with "1.prems" show ?thesis
      by (simp add: set_negative.simps [of fens i acc])
  next
    case True
    with "1.prems" obtain line where
      line: "fen_timeline (fens ! nat i) = Inr line" and
      rest: "set_negative fens (i - 1) (acc @ [line]) = Inr r"
      by (auto simp: set_negative.simps [of fens i acc] ebind_eq_Inr vector_at_eq_Inr)
    have v: "vector_at fens i = Inr (fens ! nat i)"
      using True "1.prems"(2) by (simp add: vector_at_def)
    from "1.IH" [OF True rest] "1.prems"(2) obtain ls where
      ls: "r = (acc @ [line]) @ ls"
          "list_all2 initial_timeline (rev (take (nat (i - 1 + 1)) fens)) ls"
      by auto
    from True "1.prems"(2) have "take (nat (i + 1)) fens = take (nat i) fens @ [fens ! nat i]"
      by (simp add: nat_add_distrib take_Suc_conv_app_nth)
    with ls fen_timeline_initial [OF line] have
      "r = acc @ (line # ls) \<and>
       list_all2 initial_timeline (rev (take (nat (i + 1)) fens)) (line # ls)"
      by simp
    then show ?thesis by blast
  qed
qed

lemma set_negative_ok:
  "\<forall>fen \<in> set fens. is_ok (Board2D_set fen) \<Longrightarrow> i < int (length fens) \<Longrightarrow>
   is_ok (set_negative fens i acc)"
proof (induction fens i acc rule: set_negative.induct)
  case (1 fens i acc)
  show ?case
  proof (cases "i \<ge> 0")
    case False
    then show ?thesis
      by (simp add: set_negative.simps [of fens i acc])
  next
    case True
    with "1.prems"(2) have v: "vector_at fens i = Inr (fens ! nat i)"
      by (simp add: vector_at_def)
    from True "1.prems" have "is_ok (fen_timeline (fens ! nat i))"
      by (simp add: fen_timeline_ok)
    then obtain line where line: "fen_timeline (fens ! nat i) = Inr line"
      by (auto simp: is_ok_iff)
    from "1.IH" [OF True "1.prems"(1), of line] "1.prems"(2)
    have "is_ok (set_negative fens (i - 1) (acc @ [line]))"
      by simp
    with True v line show ?thesis
      by (simp add: set_negative.simps [of fens i acc])
  qed
qed

lemma Position_set_eq_Inr:
  assumes "Position_set negativeFENs positiveFENs = Inr p"
  shows "\<exists>central fb.
           set_negative negativeFENs (to_int (int (length negativeFENs) - 1)) []
             = Inr (negativeLines p) \<and>
           set_positive positiveFENs [] = Inr (positiveLines p) \<and>
           vector_at (positiveLines p) 0 = Inr central \<and>
           first_board central = Inr fb \<and>
           activePositiveLines p = to_short (int (length positiveFENs) - 1) \<and>
           activeNegativeLines p = to_short (int (length negativeFENs)) \<and>
           timeOfPresent p = 1 \<and>
           pos_sideToMove p = sideToMove fb"
proof -
  from assms obtain neg pos central fb where
    "set_negative negativeFENs (to_int (int (length negativeFENs) - 1)) [] = Inr neg"
    "set_positive positiveFENs [] = Inr pos"
    "vector_at pos 0 = Inr central"
    "first_board central = Inr fb"
    "p = \<lparr>negativeLines = neg, positiveLines = pos,
          activePositiveLines = to_short (int (length positiveFENs) - 1),
          activeNegativeLines = to_short (int (length negativeFENs)),
          timeOfPresent = 1,
          pos_sideToMove = side_to_move fb\<rparr>"
    unfolding Position_set_def ebind_eq_Inr by blast
  then show ?thesis
    by (simp add: side_to_move_def)
qed

lemma Position_set_lines:
  assumes "Position_set negativeFENs positiveFENs = Inr p"
  shows "list_all2 initial_timeline positiveFENs (positiveLines p)"
    and "list_all2 initial_timeline
           (rev (take (nat (to_int (int (length negativeFENs) - 1) + 1)) negativeFENs))
           (negativeLines p)"
proof -
  from Position_set_eq_Inr [OF assms] have
    n: "set_negative negativeFENs (to_int (int (length negativeFENs) - 1)) []
          = Inr (negativeLines p)" and
    q: "set_positive positiveFENs [] = Inr (positiveLines p)"
    by auto
  from set_positive_eq_Inr [OF q] show "list_all2 initial_timeline positiveFENs (positiveLines p)"
    by simp
  have "to_int (int (length negativeFENs) - 1) \<le> int (length negativeFENs) - 1"
    by (rule to_int_le) simp
  then have "to_int (int (length negativeFENs) - 1) < int (length negativeFENs)"
    by simp
  from set_negative_eq_Inr [OF n this]
  show "list_all2 initial_timeline
           (rev (take (nat (to_int (int (length negativeFENs) - 1) + 1)) negativeFENs))
           (negativeLines p)"
    by simp
qed

lemma Position_set_all_active:
  assumes "Position_set negativeFENs positiveFENs = Inr p"
  shows "\<forall>line \<in> set (negativeLines p) \<union> set (positiveLines p). active line"
proof -
  have "list_all2 initial_timeline fens ls \<Longrightarrow> \<forall>line \<in> set ls. active line" for fens ls
    by (auto simp: list_all2_conv_all_nth in_set_conv_nth initial_timeline_def is_active_def)
  with Position_set_lines [OF assms] show ?thesis
    by blast
qed

lemma Position_set_ok:
  assumes "\<forall>fen \<in> set negativeFENs \<union> set positiveFENs. is_ok (Board2D_set fen)"
    and "positiveFENs \<noteq> []"
  shows "is_ok (Position_set negativeFENs positiveFENs)"
proof -
  have "to_int (int (length negativeFENs) - 1) \<le> int (length negativeFENs) - 1"
    by (rule to_int_le) simp
  then have "to_int (int (length negativeFENs) - 1) < int (length negativeFENs)"
    by simp
  with assms(1) have
    "is_ok (set_negative negativeFENs (to_int (int (length negativeFENs) - 1)) [])"
    by (intro set_negative_ok) auto
  then obtain neg where
    neg: "set_negative negativeFENs (to_int (int (length negativeFENs) - 1)) [] = Inr neg"
    by (auto simp: is_ok_iff)
  from assms(1) have "is_ok (set_positive positiveFENs [])"
    by (intro set_positive_ok) auto
  then obtain pos where pos: "set_positive positiveFENs [] = Inr pos"
    by (auto simp: is_ok_iff)
  from set_positive_eq_Inr [OF pos] have l: "list_all2 initial_timeline positiveFENs pos"
    by simp
  with assms(2) have ne: "pos \<noteq> []"
    by (auto simp: list_all2_conv_all_nth)
  from l ne have "initial_timeline (positiveFENs ! 0) (pos ! 0)"
    by (auto simp: list_all2_conv_all_nth)
  then have "boards (pos ! 0) \<noteq> []"
    by (auto simp: initial_timeline_def)
  with neg pos ne show ?thesis
    by (simp add: Position_set_def vector_at_def first_board_def)
qed

lemma Board2D_set_lone_king: "is_ok (Board2D_set ''k w'')"
  by (simp add: Board2D_set_def isspace_def isdigit_def PieceToChar_def
      int_result_def put_piece_def in_array_def Board2D_cleared_def make_piece_def
      color_of_def Color_of_int_def Let_def)

text \<open>
  Claim C7, as amended. A call of \<^verbatim>\<open>set(negativeFENs, positiveFENs)\<close> that returns,
  with at most 32768 positive and 32767 negative strings, leaves one timeline per
  string, the positive ones in the order given and the negative ones in reverse, each
  starting at time 1 with its decoded board's side to move, holding that board, and
  active; \<^verbatim>\<open>activePositiveLines\<close> is the number of positive strings less one,
  \<^verbatim>\<open>activeNegativeLines\<close> the number of negative strings, the present is 1 and the side
  to move is that of the central board. (Lemma \<open>Position_set_ok\<close>: the call returns
  whenever every string decodes and there is a positive one.)
\<close>

theorem initialization_postconditions:
  assumes "Position_set negativeFENs positiveFENs = Inr p"
    and "positiveFENs \<noteq> []"
    and "length positiveFENs \<le> 32768"
    and "length negativeFENs \<le> 32767"
  shows "list_all2 initial_timeline positiveFENs (positiveLines p) \<and>
         list_all2 initial_timeline (rev negativeFENs) (negativeLines p) \<and>
         activePositiveLines p = int (length positiveFENs) - 1 \<and>
         activeNegativeLines p = int (length negativeFENs) \<and>
         time_of_present p = 1 \<and>
         (\<exists>central. first_board (positiveLines p ! 0) = Inr central \<and>
            Board2D_set (positiveFENs ! 0) = Inr central \<and>
            pos_side_to_move p = side_to_move central)"
proof -
  from assms(4) have i: "to_int (int (length negativeFENs) - 1) = int (length negativeFENs) - 1"
    by (intro to_int_id) simp_all
  from Position_set_lines [OF assms(1)] i have
    pl: "list_all2 initial_timeline positiveFENs (positiveLines p)" and
    nl: "list_all2 initial_timeline (rev negativeFENs) (negativeLines p)"
    by simp_all
  from Position_set_eq_Inr [OF assms(1)] obtain central fb where
    c: "vector_at (positiveLines p) 0 = Inr central" "first_board central = Inr fb"
       "activePositiveLines p = to_short (int (length positiveFENs) - 1)"
       "activeNegativeLines p = to_short (int (length negativeFENs))"
       "timeOfPresent p = 1" "pos_sideToMove p = sideToMove fb"
    by blast
  from assms(2,3) have ap: "to_short (int (length positiveFENs) - 1) = int (length positiveFENs) - 1"
    by (intro to_short_id) simp_all
  from assms(4) have an: "to_short (int (length negativeFENs)) = int (length negativeFENs)"
    by (intro to_short_id) simp_all
  from c(1) have central: "central = positiveLines p ! 0"
    by (simp add: vector_at_eq_Inr)
  from pl assms(2) have "initial_timeline (positiveFENs ! 0) (positiveLines p ! 0)"
    by (auto simp: list_all2_conv_all_nth)
  with c(2) central have "Board2D_set (positiveFENs ! 0) = Inr fb"
    by (auto simp: initial_timeline_def first_board_def split: if_splits)
  with pl nl c ap an central show ?thesis
    by (simp add: time_of_present_def pos_side_to_move_def side_to_move_def)
qed

theorem initialization_postconditions_witness:
  "is_ok (Position_set [black_fen, test_fen] [test_fen, black_fen]) \<and>
   list_all2 initial_timeline [test_fen, black_fen]
     (positiveLines (projr (Position_set [black_fen, test_fen] [test_fen, black_fen]))) \<and>
   list_all2 initial_timeline [test_fen, black_fen]
     (negativeLines (projr (Position_set [black_fen, test_fen] [test_fen, black_fen]))) \<and>
   activePositiveLines (projr (Position_set [black_fen, test_fen] [test_fen, black_fen])) = 1 \<and>
   activeNegativeLines (projr (Position_set [black_fen, test_fen] [test_fen, black_fen])) = 2 \<and>
   time_of_present (projr (Position_set [black_fen, test_fen] [test_fen, black_fen])) = 1 \<and>
   pos_side_to_move (projr (Position_set [black_fen, test_fen] [test_fen, black_fen])) = WHITE"
proof -
  have ok: "is_ok (Position_set [black_fen, test_fen] [test_fen, black_fen])"
    by (rule Position_set_ok) (auto simp: Board2D_set_test_fen Board2D_set_black_fen)
  then obtain p where p: "Position_set [black_fen, test_fen] [test_fen, black_fen] = Inr p"
    by (auto simp: is_ok_iff)
  from initialization_postconditions [OF p] ok p show ?thesis
    by (auto simp: Board2D_set_test_fen side_to_move_def sideToMove_test_board)
qed

text \<open>
  The claim as stated has no bound on the lists. The counters are \<^verbatim>\<open>short\<close>: with 32769
  positive strings the count less one, 32768, does not fit, and
  \<^verbatim>\<open>activePositiveLines\<close> is -32768.
\<close>

theorem counter_wraps_at_short:
  "many_fens \<noteq> [] \<and>
   is_ok (Position_set [] many_fens) \<and>
   int (length many_fens) - 1 = 32768 \<and>
   activePositiveLines (projr (Position_set [] many_fens)) = - 32768"
proof -
  have ne: "many_fens \<noteq> []"
    by (simp add: many_fens_def)
  have ok: "is_ok (Position_set [] many_fens)"
    by (rule Position_set_ok) (auto simp: many_fens_def Board2D_set_lone_king)
  then obtain p where p: "Position_set [] many_fens = Inr p"
    by (auto simp: is_ok_iff)
  from Position_set_eq_Inr [OF p] have "activePositiveLines p = - 32768"
    by (auto simp: many_fens_def to_short_def)
  with ne ok p show ?thesis
    by (simp add: many_fens_def)
qed

section \<open>Active timelines stay active\<close>

lemma keeps_active_append: "keeps_active xs (xs @ ys)"
  by (simp add: keeps_active_def nth_append)

lemma keeps_active_activate: "keeps_active xs (xs[k := activate (xs ! k)])"
proof (cases "k < length xs")
  case True
  then show ?thesis
    by (auto simp: keeps_active_def nth_list_update activate_def)
next
  case False
  then show ?thesis
    by (simp add: keeps_active_def)
qed

lemma keeps_active_refl: "keeps_active xs xs"
  by (simp add: keeps_active_def)

lemma new_timeline_white_keeps_active:
  assumes "new_timeline_white p nt pc nc = Inr p'"
  shows "keeps_active (positiveLines p) (positiveLines p') \<and>
         keeps_active (negativeLines p) (negativeLines p')"
  using new_timeline_white_cases [OF assms]
  by (auto simp: keeps_active_append keeps_active_activate keeps_active_refl)

lemma new_timeline_black_keeps_active:
  assumes "new_timeline_black p nt pc nc = Inr p'"
  shows "keeps_active (positiveLines p) (positiveLines p') \<and>
         keeps_active (negativeLines p) (negativeLines p')"
  using new_timeline_black_cases [OF assms]
  by (auto simp: keeps_active_append keeps_active_activate keeps_active_refl)

lemma new_timeline_keeps_active:
  assumes "new_timeline p l t = Inr (p', nb)"
  shows "keeps_active (positiveLines p) (positiveLines p') \<and>
         keeps_active (negativeLines p) (negativeLines p')"
  using new_timeline_unfold [OF assms]
  by (auto split: if_splits dest: new_timeline_white_keeps_active new_timeline_black_keeps_active)

lemma timeline_append_board_keeps_active:
  assumes "timeline_append_board p l b = Inr p'"
  shows "keeps_active (positiveLines p) (positiveLines p') \<and>
         keeps_active (negativeLines p) (negativeLines p')"
  using assms
  by (auto simp: timeline_append_board_def ebind_eq_Inr keeps_active_def nth_list_update
      append_board_def timeline_def vector_at_eq_Inr int_result_eq_Inr split: if_splits)

text \<open>
  Claim C9. \<^verbatim>\<open>activate\<close> sets the flag and is idempotent; the other functions that
  change a timeline (\<^verbatim>\<open>append_board\<close>, \<^verbatim>\<open>set_print_indented\<close>) keep the flag; a call of
  \<^verbatim>\<open>new_timeline\<close>, and a caller's append to a timeline of the position, leave every
  timeline in its place, active if it was; and \<^verbatim>\<open>Position::set\<close>, which replaces the
  timelines, leaves active ones only. No function of the three classes clears the flag.
\<close>

theorem once_active_always_active:
  "is_active (activate line) \<and>
   activate (activate line) = activate line \<and>
   (is_active line \<longrightarrow>
      is_active (append_board line b) \<and> is_active (set_print_indented line pi)) \<and>
   (new_timeline p branchLine branchTime = Inr (p', newBoard) \<longrightarrow>
      keeps_active (positiveLines p) (positiveLines p') \<and>
      keeps_active (negativeLines p) (negativeLines p')) \<and>
   (timeline_append_board p l b = Inr p'' \<longrightarrow>
      keeps_active (positiveLines p) (positiveLines p'') \<and>
      keeps_active (negativeLines p) (negativeLines p'')) \<and>
   (Position_set negativeFENs positiveFENs = Inr q \<longrightarrow>
      (\<forall>line \<in> set (negativeLines q) \<union> set (positiveLines q). is_active line))"
  using new_timeline_keeps_active [of p branchLine branchTime p' newBoard]
    timeline_append_board_keeps_active [of p l b p'']
    Position_set_all_active [of negativeFENs positiveFENs q]
  by (simp add: is_active_def activate_def append_board_def set_print_indented_def)

theorem once_active_always_active_witness:
  "is_active test_central \<and>
   is_active (activate test_central) \<and>
   is_active (append_board test_central test_board) \<and>
   is_active (set_print_indented test_central False) \<and>
   is_ok (new_timeline white_once 0 1) \<and>
   keeps_active (positiveLines white_once)
     (positiveLines (fst (projr (new_timeline white_once 0 1)))) \<and>
   keeps_active (negativeLines white_once)
     (negativeLines (fst (projr (new_timeline white_once 0 1)))) \<and>
   is_ok (timeline_append_board white_once 0 test_board) \<and>
   keeps_active (positiveLines white_once)
     (positiveLines (projr (timeline_append_board white_once 0 test_board))) \<and>
   list_all is_active (positiveLines test_position)"
proof -
  have a: "is_active test_central"
    by (simp add: test_central_value is_active_def)
  have ok: "is_ok (new_timeline white_once 0 1)"
    by (simp add: new_timeline_white_once)
  then obtain p' nb where r: "new_timeline white_once 0 1 = Inr (p', nb)"
    by (auto simp: is_ok_iff)
  have ok2: "is_ok (timeline_append_board white_once 0 test_board)"
    by (simp add: timeline_append_board_def timeline_def vector_at_def white_once_value)
  then obtain p'' where r2: "timeline_append_board white_once 0 test_board = Inr p''"
    by (auto simp: is_ok_iff)
  from once_active_always_active [where line = test_central and b = test_board and pi = False
      and p = white_once and branchLine = 0 and branchTime = 1 and p' = p'
      and newBoard = nb and l = 0 and p'' = p'' and negativeFENs = "[]"
      and positiveFENs = "[test_fen]" and q = test_position]
    a ok r ok2 r2 Position_set_test
  show ?thesis
    by (auto simp: list_all_iff)
qed

section \<open>Squares and piece lists\<close>

lemma Pieces_range: "pc \<in> set Pieces \<Longrightarrow> 0 < pc \<and> pc < 16 \<and> pc \<noteq> 8"
  by (auto simp: Pieces_def)

lemma all_pieces_entry:
  "pc \<in> set Pieces \<Longrightarrow> make_piece (color_of pc) ALL_PIECES = (if pc \<le> 6 then 0 else 8)"
  by (auto simp: Pieces_def make_piece_def color_of_def Color_of_int_def drop_bit_eq_div
      push_bit_eq_mult)

lemma all_pieces_entry_not_piece:
  "pc \<in> set Pieces \<Longrightarrow> make_piece (color_of pc) ALL_PIECES \<notin> set Pieces"
  by (auto simp: Pieces_def make_piece_def color_of_def Color_of_int_def drop_bit_eq_div
      push_bit_eq_mult)

lemma totals_bound:
  assumes "totals_inv b" and "\<forall>pc \<in> set Pieces. list_inv b pc"
  shows "0 \<le> pieceCount b 0 \<and> pieceCount b 0 \<le> 96 \<and> 0 \<le> pieceCount b 8 \<and> pieceCount b 8 \<le> 96"
proof -
  have "\<forall>pc \<in> set Pieces. 0 \<le> pieceCount b pc \<and> pieceCount b pc \<le> 16"
    using assms(2) by (simp add: list_inv_def)
  then show ?thesis
    using assms(1) by (simp add: Pieces_def totals_inv_def)
qed

lemma put_piece_result:
  assumes "board_inv b" and "pc \<in> set Pieces" and "in_array SQUARE_NB s"
    and "pieceCount b pc < 16"
  shows "\<exists>b'. put_piece b pc s = Inr b' \<and>
           board b' = (board b)(s := pc) \<and>
           index b' = (index b)(s := pieceCount b pc) \<and>
           pieceList b' = (pieceList b)(pc := (pieceList b pc)(pieceCount b pc := s)) \<and>
           pieceCount b' = ((pieceCount b)(pc := pieceCount b pc + 1))
              (make_piece (color_of pc) ALL_PIECES :=
                 pieceCount b (make_piece (color_of pc) ALL_PIECES) + 1) \<and>
           sideToMove b' = sideToMove b \<and> boardWidth b' = boardWidth b"
proof -
  from assms(1) have t: "totals_inv b" and l: "\<forall>pc \<in> set Pieces. list_inv b pc"
    by (simp_all add: board_inv_def)
  from l assms(2) have c: "0 \<le> pieceCount b pc"
    by (simp add: list_inv_def)
  note tb = totals_bound [OF t l]
  note r = Pieces_range [OF assms(2)]
  note a = all_pieces_entry [OF assms(2)]
  show ?thesis
    using assms(3,4) c tb r a
    by (simp add: put_piece_def in_array_def int_result_def Let_def)
qed

lemma remove_piece_result:
  assumes "board_inv b" and "in_array SQUARE_NB s" and "board b s \<noteq> NO_PIECE"
  shows "\<exists>b'. remove_piece b s = Inr b' \<and>
           board b' = (board b)(s := NO_PIECE) \<and>
           index b' = (index b)
              (pieceList b (board b s) (pieceCount b (board b s) - 1) := index b s) \<and>
           pieceList b' = (pieceList b)
              (board b s := ((pieceList b (board b s))
                 (index b s := pieceList b (board b s) (pieceCount b (board b s) - 1)))
                 (pieceCount b (board b s) - 1 := SQ_NONE)) \<and>
           pieceCount b' = ((pieceCount b)(board b s := pieceCount b (board b s) - 1))
              (make_piece (color_of (board b s)) ALL_PIECES :=
                 pieceCount b (make_piece (color_of (board b s)) ALL_PIECES) - 1) \<and>
           sideToMove b' = sideToMove b \<and> boardWidth b' = boardWidth b"
proof -
  from assms(1) have t: "totals_inv b" and l: "\<forall>pc \<in> set Pieces. list_inv b pc"
    by (simp_all add: board_inv_def)
  from assms have pc: "board b s \<in> set Pieces"
    by (auto simp: board_inv_def)
  with l have li: "list_inv b (board b s)"
    by blast
  from li assms(2) have k: "in_array (pieceCount b (board b s)) (index b s)"
    by (simp add: list_inv_def)
  with li have n: "in_array (pieceCount b (board b s)) (pieceCount b (board b s) - 1)"
    and c16: "pieceCount b (board b s) \<le> 16"
    by (simp_all add: in_array_def list_inv_def)
  from li n have ls: "in_array SQUARE_NB (pieceList b (board b s) (pieceCount b (board b s) - 1))"
    by (simp add: list_inv_def)
  note tb = totals_bound [OF t l]
  note r = Pieces_range [OF pc]
  note a = all_pieces_entry [OF pc]
  show ?thesis
    using assms(2) k n c16 ls tb r a
    by (simp add: remove_piece_def in_array_def int_result_def Let_def)
qed

lemma put_piece_totals:
  assumes "totals_inv b" and "pc \<in> set Pieces"
    and "pieceCount b' = ((pieceCount b)(pc := pieceCount b pc + 1))
              (make_piece (color_of pc) ALL_PIECES :=
                 pieceCount b (make_piece (color_of pc) ALL_PIECES) + 1)"
  shows "totals_inv b'"
  using assms(1,2) unfolding assms(3) totals_inv_def
  by (auto simp: Pieces_def make_piece_def color_of_def Color_of_int_def drop_bit_eq_div
      push_bit_eq_mult)

lemma remove_piece_totals:
  assumes "totals_inv b" and "pc \<in> set Pieces"
    and "pieceCount b' = ((pieceCount b)(pc := pieceCount b pc - 1))
              (make_piece (color_of pc) ALL_PIECES :=
                 pieceCount b (make_piece (color_of pc) ALL_PIECES) - 1)"
  shows "totals_inv b'"
  using assms(1,2) unfolding assms(3) totals_inv_def
  by (auto simp: Pieces_def make_piece_def color_of_def Color_of_int_def drop_bit_eq_div
      push_bit_eq_mult)

lemma remove_list_inv_same:
  assumes inv: "list_inv b pc" and s: "in_array SQUARE_NB s" and pc: "board b s = pc"
    and ne: "pc \<noteq> NO_PIECE"
    and b': "board b' = (board b)(s := NO_PIECE)"
    and i': "index b' = (index b)(pieceList b pc (pieceCount b pc - 1) := index b s)"
    and l': "pieceList b' pc = ((pieceList b pc)
               (index b s := pieceList b pc (pieceCount b pc - 1)))
               (pieceCount b pc - 1 := SQ_NONE)"
    and c': "pieceCount b' pc = pieceCount b pc - 1"
  shows "list_inv b' pc"
proof -
  define c where "c = pieceCount b pc"
  define k where "k = index b s"
  define ls where "ls = pieceList b pc (c - 1)"
  have A: "in_array SQUARE_NB (pieceList b pc i) \<and> board b (pieceList b pc i) = pc \<and>
           index b (pieceList b pc i) = i" if "0 \<le> i" "i < c" for i
    using inv that by (simp add: list_inv_def in_array_def c_def)
  have B: "0 \<le> index b t \<and> index b t < c \<and> pieceList b pc (index b t) = t"
    if "in_array SQUARE_NB t" "board b t = pc" for t
    using inv that by (simp add: list_inv_def in_array_def c_def)
  have c16: "c \<le> 16"
    using inv by (simp add: list_inv_def c_def)
  from B [OF s pc] have k: "0 \<le> k" "k < c" "pieceList b pc k = s"
    by (simp_all add: k_def)
  from A [of "c - 1"] k have ls: "in_array SQUARE_NB ls" "board b ls = pc" "index b ls = c - 1"
    by (simp_all add: ls_def)
  have fields:
    "board b' = (board b)(s := 0)" "index b' = (index b)(ls := k)"
    "pieceList b' pc = ((pieceList b pc)(k := ls))(c - 1 := 64)"
    "pieceCount b' pc = c - 1"
    using b' i' l' c' by (simp_all add: c_def k_def ls_def)
  have entries: "in_array SQUARE_NB (pieceList b' pc i) \<and> board b' (pieceList b' pc i) = pc \<and>
           index b' (pieceList b' pc i) = i" if i: "0 \<le> i" "i < c - 1" for i
  proof (cases "i = k")
    case True
    with i ls k have "ls \<noteq> s"
      by (auto simp: k_def)
    with True i ls show ?thesis
      by (simp add: fields)
  next
    case False
    from A [of i] i have t: "in_array SQUARE_NB (pieceList b pc i)"
      "board b (pieceList b pc i) = pc" "index b (pieceList b pc i) = i"
      by simp_all
    from t(3) False have "pieceList b pc i \<noteq> s"
      by (auto simp: k_def)
    moreover from t(3) i ls(3) have "pieceList b pc i \<noteq> ls"
      by auto
    ultimately show ?thesis
      using False i t by (simp add: fields)
  qed
  have squares: "0 \<le> index b' t \<and> index b' t < c - 1 \<and> pieceList b' pc (index b' t) = t"
    if t: "in_array SQUARE_NB t" "board b' t = pc" for t
  proof -
    from t(2) ne have ts: "t \<noteq> s" and bt: "board b t = pc"
      by (auto simp: fields split: if_splits)
    from B [OF t(1) bt] have j: "0 \<le> index b t" "index b t < c" "pieceList b pc (index b t) = t"
      by simp_all
    show ?thesis
    proof (cases "t = ls")
      case True
      have "k \<noteq> c - 1"
      proof
        assume "k = c - 1"
        with k(3) have "ls = s" by (simp add: ls_def)
        with True ts show False by simp
      qed
      with k True show ?thesis
        by (simp add: fields)
    next
      case False
      have "index b t \<noteq> c - 1"
      proof
        assume "index b t = c - 1"
        with j(3) have "t = ls" by (simp add: ls_def)
        with False show False by simp
      qed
      moreover have "index b t \<noteq> k"
      proof
        assume "index b t = k"
        with j(3) k(3) have "t = s" by simp
        with ts show False by simp
      qed
      ultimately show ?thesis
        using False j by (simp add: fields)
    qed
  qed
  from k c16 entries squares show ?thesis
    unfolding list_inv_def in_array_def fields(4) by (simp add: in_array_def)
qed

lemma list_inv_entries:
  "list_inv b pc \<Longrightarrow> 0 \<le> i \<Longrightarrow> i < pieceCount b pc \<Longrightarrow>
   in_array SQUARE_NB (pieceList b pc i) \<and> board b (pieceList b pc i) = pc \<and>
   index b (pieceList b pc i) = i"
  by (simp add: list_inv_def in_array_def)

lemma list_inv_squares:
  "list_inv b pc \<Longrightarrow> in_array SQUARE_NB t \<Longrightarrow> board b t = pc \<Longrightarrow>
   0 \<le> index b t \<and> index b t < pieceCount b pc \<and> pieceList b pc (index b t) = t"
  by (simp add: list_inv_def in_array_def)

lemma list_invI:
  assumes "0 \<le> pieceCount b pc" and "pieceCount b pc \<le> 16"
    and "\<And>i. 0 \<le> i \<Longrightarrow> i < pieceCount b pc \<Longrightarrow>
           in_array SQUARE_NB (pieceList b pc i) \<and> board b (pieceList b pc i) = pc \<and>
           index b (pieceList b pc i) = i"
    and "\<And>t. in_array SQUARE_NB t \<Longrightarrow> board b t = pc \<Longrightarrow>
           0 \<le> index b t \<and> index b t < pieceCount b pc \<and> pieceList b pc (index b t) = t"
  shows "list_inv b pc"
  using assms by (simp add: list_inv_def in_array_def)

lemma put_list_inv_same:
  assumes inv: "list_inv b pc" and free: "board b s \<noteq> pc" and s: "in_array SQUARE_NB s"
    and room: "pieceCount b pc < 16"
    and b': "board b' = (board b)(s := pc)"
    and i': "index b' = (index b)(s := pieceCount b pc)"
    and l': "pieceList b' pc = (pieceList b pc)(pieceCount b pc := s)"
    and c': "pieceCount b' pc = pieceCount b pc + 1"
  shows "list_inv b' pc"
proof (rule list_invI)
  from inv show "0 \<le> pieceCount b' pc"
    by (simp add: c' list_inv_def)
  from room show "pieceCount b' pc \<le> 16"
    by (simp add: c')
next
  fix i assume i: "0 \<le> i" "i < pieceCount b' pc"
  show "in_array SQUARE_NB (pieceList b' pc i) \<and> board b' (pieceList b' pc i) = pc \<and>
        index b' (pieceList b' pc i) = i"
  proof (cases "i = pieceCount b pc")
    case True
    with s show ?thesis
      by (simp add: b' i' l')
  next
    case False
    with i have "i < pieceCount b pc"
      by (simp add: c')
    from list_inv_entries [OF inv i(1) this] free False show ?thesis
      by (auto simp: b' i' l')
  qed
next
  fix t assume t: "in_array SQUARE_NB t" "board b' t = pc"
  show "0 \<le> index b' t \<and> index b' t < pieceCount b' pc \<and> pieceList b' pc (index b' t) = t"
  proof (cases "t = s")
    case True
    with inv show ?thesis
      by (simp add: i' l' c' list_inv_def)
  next
    case False
    with t have "board b t = pc"
      by (simp add: b')
    from list_inv_squares [OF inv t(1) this] False show ?thesis
      by (auto simp: i' l' c')
  qed
qed

lemma put_list_inv_other:
  assumes inv: "list_inv b q" and q: "q \<noteq> pc" and free: "board b s \<noteq> q"
    and b': "board b' = (board b)(s := pc)"
    and i': "index b' = (index b)(s := c)"
    and l': "pieceList b' q = pieceList b q"
    and c': "pieceCount b' q = pieceCount b q"
  shows "list_inv b' q"
proof (rule list_invI)
  from inv show "0 \<le> pieceCount b' q" "pieceCount b' q \<le> 16"
    by (simp_all add: c' list_inv_def)
next
  fix i assume i: "0 \<le> i" "i < pieceCount b' q"
  then have "i < pieceCount b q"
    by (simp add: c')
  from list_inv_entries [OF inv i(1) this] free
  show "in_array SQUARE_NB (pieceList b' q i) \<and> board b' (pieceList b' q i) = q \<and>
        index b' (pieceList b' q i) = i"
    by (auto simp: b' i' l')
next
  fix t assume t: "in_array SQUARE_NB t" "board b' t = q"
  with q have ts: "t \<noteq> s" and "board b t = q"
    by (auto simp: b' split: if_splits)
  from list_inv_squares [OF inv t(1) this(2)] ts
  show "0 \<le> index b' t \<and> index b' t < pieceCount b' q \<and> pieceList b' q (index b' t) = t"
    by (simp add: i' l' c')
qed

lemma remove_list_inv_other:
  assumes inv: "list_inv b q" and q: "q \<noteq> board b s" and ne: "q \<noteq> NO_PIECE"
    and ls: "board b ls = board b s"
    and b': "board b' = (board b)(s := NO_PIECE)"
    and i': "index b' = (index b)(ls := k)"
    and l': "pieceList b' q = pieceList b q"
    and c': "pieceCount b' q = pieceCount b q"
  shows "list_inv b' q"
proof (rule list_invI)
  from inv show "0 \<le> pieceCount b' q" "pieceCount b' q \<le> 16"
    by (simp_all add: c' list_inv_def)
next
  fix i assume i: "0 \<le> i" "i < pieceCount b' q"
  then have "i < pieceCount b q"
    by (simp add: c')
  from list_inv_entries [OF inv i(1) this] q ls
  show "in_array SQUARE_NB (pieceList b' q i) \<and> board b' (pieceList b' q i) = q \<and>
        index b' (pieceList b' q i) = i"
    by (auto simp: b' i' l')
next
  fix t assume t: "in_array SQUARE_NB t" "board b' t = q"
  with ne have ts: "t \<noteq> s" and bt: "board b t = q"
    by (auto simp: b' split: if_splits)
  from bt q ls have "t \<noteq> ls"
    by auto
  with list_inv_squares [OF inv t(1) bt]
  show "0 \<le> index b' t \<and> index b' t < pieceCount b' q \<and> pieceList b' q (index b' t) = t"
    by (simp add: i' l' c')
qed

lemma put_piece_inv:
  assumes inv: "board_inv b" and pc: "pc \<in> set Pieces" and s: "in_array SQUARE_NB s"
    and free: "board b s = NO_PIECE" and room: "pieceCount b pc < 16"
  shows "\<exists>b'. put_piece b pc s = Inr b' \<and> board_inv b'"
proof -
  from put_piece_result [OF inv pc s room] obtain b' where
    r: "put_piece b pc s = Inr b'" and
    b': "board b' = (board b)(s := pc)" and
    i': "index b' = (index b)(s := pieceCount b pc)" and
    l': "pieceList b' = (pieceList b)(pc := (pieceList b pc)(pieceCount b pc := s))" and
    c': "pieceCount b' = ((pieceCount b)(pc := pieceCount b pc + 1))
              (make_piece (color_of pc) ALL_PIECES :=
                 pieceCount b (make_piece (color_of pc) ALL_PIECES) + 1)"
    by blast
  from inv have sq: "\<forall>t. in_array SQUARE_NB t \<longrightarrow> board b t = NO_PIECE \<or> board b t \<in> set Pieces"
    and li: "\<forall>q \<in> set Pieces. list_inv b q" and tot: "totals_inv b"
    by (simp_all add: board_inv_def)
  note a = all_pieces_entry_not_piece [OF pc]
  have "list_inv b' q" if q: "q \<in> set Pieces" for q
  proof (cases "q = pc")
    case True
    from pc free have "board b s \<noteq> pc"
      using Pieces_range [OF pc] by simp
    moreover from a pc have "pieceCount b' pc = pieceCount b pc + 1"
      by (auto simp: c')
    moreover have "pieceList b' pc = (pieceList b pc)(pieceCount b pc := s)"
      by (simp add: l')
    ultimately have "list_inv b' pc"
      using li pc s room b' i' by (intro put_list_inv_same [of b pc s b']) auto
    with True show ?thesis by simp
  next
    case False
    from q free have "board b s \<noteq> q"
      using Pieces_range [OF q] by simp
    moreover from a q False have "pieceCount b' q = pieceCount b q"
      by (auto simp: c')
    moreover from False have "pieceList b' q = pieceList b q"
      by (simp add: l')
    ultimately show ?thesis
      using li q False b' i' by (intro put_list_inv_other [of b q pc s b']) auto
  qed
  moreover from sq pc have
    "\<forall>t. in_array SQUARE_NB t \<longrightarrow> board b' t = NO_PIECE \<or> board b' t \<in> set Pieces"
    by (simp add: b')
  moreover from put_piece_totals [OF tot pc c'] have "totals_inv b'" .
  ultimately have "board_inv b'"
    by (simp add: board_inv_def)
  with r show ?thesis by blast
qed

lemma remove_piece_inv:
  assumes inv: "board_inv b" and s: "in_array SQUARE_NB s" and occ: "board b s \<noteq> NO_PIECE"
  shows "\<exists>b'. remove_piece b s = Inr b' \<and> board_inv b'"
proof -
  define pc where "pc = board b s"
  define ls where "ls = pieceList b pc (pieceCount b pc - 1)"
  from remove_piece_result [OF inv s occ] obtain b' where
    r: "remove_piece b s = Inr b'" and
    b': "board b' = (board b)(s := NO_PIECE)" and
    i': "index b' = (index b)(ls := index b s)" and
    l': "pieceList b' = (pieceList b)
              (pc := ((pieceList b pc)(index b s := ls))(pieceCount b pc - 1 := SQ_NONE))" and
    c': "pieceCount b' = ((pieceCount b)(pc := pieceCount b pc - 1))
              (make_piece (color_of pc) ALL_PIECES :=
                 pieceCount b (make_piece (color_of pc) ALL_PIECES) - 1)"
    unfolding pc_def ls_def by blast
  from inv have sq: "\<forall>t. in_array SQUARE_NB t \<longrightarrow> board b t = NO_PIECE \<or> board b t \<in> set Pieces"
    and li: "\<forall>q \<in> set Pieces. list_inv b q" and tot: "totals_inv b"
    by (simp_all add: board_inv_def)
  from sq s occ have pc: "pc \<in> set Pieces"
    by (auto simp: pc_def)
  with li have lpc: "list_inv b pc"
    by blast
  note a = all_pieces_entry_not_piece [OF pc]
  from list_inv_squares [OF lpc s] have k: "0 \<le> index b s" "index b s < pieceCount b pc"
    by (simp_all add: pc_def)
  from list_inv_entries [OF lpc, of "pieceCount b pc - 1"] k have bls: "board b ls = board b s"
    by (simp add: ls_def pc_def)
  have "list_inv b' q" if q: "q \<in> set Pieces" for q
  proof (cases "q = pc")
    case True
    from a pc have "pieceCount b' pc = pieceCount b pc - 1"
      by (auto simp: c')
    moreover have "pieceList b' pc =
        ((pieceList b pc)(index b s := pieceList b pc (pieceCount b pc - 1)))
          (pieceCount b pc - 1 := SQ_NONE)"
      by (simp add: l' ls_def)
    moreover have "index b' = (index b)(pieceList b pc (pieceCount b pc - 1) := index b s)"
      by (simp add: i' ls_def)
    moreover have "pc \<noteq> NO_PIECE"
      using Pieces_range [OF pc] by simp
    ultimately have "list_inv b' pc"
      using lpc s b' by (intro remove_list_inv_same [of b pc s b']) (auto simp: pc_def)
    with True show ?thesis by simp
  next
    case False
    from a q False have "pieceCount b' q = pieceCount b q"
      by (auto simp: c')
    moreover from False have "pieceList b' q = pieceList b q"
      by (simp add: l')
    moreover have "q \<noteq> NO_PIECE"
      using Pieces_range [OF q] by simp
    ultimately show ?thesis
      using li q False b' i' bls
      by (intro remove_list_inv_other [of b q s ls b' "index b s"]) (auto simp: pc_def)
  qed
  moreover from sq have
    "\<forall>t. in_array SQUARE_NB t \<longrightarrow> board b' t = NO_PIECE \<or> board b' t \<in> set Pieces"
    by (simp add: b')
  moreover from remove_piece_totals [OF tot pc c'] have "totals_inv b'" .
  ultimately have "board_inv b'"
    by (simp add: board_inv_def)
  with r show ?thesis by blast
qed

lemma empty_eq_Inr: "empty b s = Inr e \<longleftrightarrow> in_array SQUARE_NB s \<and> e = (board b s = NO_PIECE)"
  by (auto simp: empty_def piece_on_def)

lemma do_call_inv:
  assumes "board_inv b" and "call_allowed b c" and "has_room b c"
  shows "\<exists>b'. do_call b c = Inr b' \<and> board_inv b'"
proof (cases c)
  case (Put pc s)
  with assms show ?thesis
    by (auto simp: empty_eq_Inr intro: put_piece_inv)
next
  case (Remove s)
  with assms show ?thesis
    by (auto simp: empty_eq_Inr intro: remove_piece_inv)
qed

lemma do_calls_inv:
  "board_inv b \<Longrightarrow> calls_allowed b cs \<Longrightarrow> calls_have_room b cs \<Longrightarrow>
   \<exists>b'. do_calls b cs = Inr b' \<and> board_inv b'"
proof (induction cs arbitrary: b)
  case Nil
  then show ?case by simp
next
  case (Cons c cs)
  from Cons.prems have "call_allowed b c" "has_room b c"
    by simp_all
  from do_call_inv [OF Cons.prems(1) this] obtain b1 where
    b1: "do_call b c = Inr b1" "board_inv b1"
    by blast
  with Cons.prems have "calls_allowed b1 cs" "calls_have_room b1 cs"
    by simp_all
  from Cons.IH [OF b1(2) this] b1(1) show ?case
    by simp
qed

lemma calls_allowed_take: "calls_allowed b cs \<Longrightarrow> calls_allowed b (take n cs)"
proof (induction cs arbitrary: b n)
  case Nil
  then show ?case by simp
next
  case (Cons c cs)
  show ?case
  proof (cases n)
    case 0
    then show ?thesis by simp
  next
    case (Suc m)
    with Cons show ?thesis
      by (cases "do_call b c") simp_all
  qed
qed

lemma calls_have_room_take: "calls_have_room b cs \<Longrightarrow> calls_have_room b (take n cs)"
proof (induction cs arbitrary: b n)
  case Nil
  then show ?case by simp
next
  case (Cons c cs)
  show ?case
  proof (cases n)
    case 0
    then show ?thesis by simp
  next
    case (Suc m)
    with Cons show ?thesis
      by (cases "do_call b c") simp_all
  qed
qed

lemma piece_squares_eq:
  "piece_squares b pc = {pieceList b pc i | i. 0 \<le> i \<and> i < pieceCount b pc}"
  by (auto simp: piece_squares_def)

lemma squares_holding_eq:
  "squares_holding b pc = {s. in_array SQUARE_NB s \<and> board b s = pc}"
  by (auto simp: squares_holding_def piece_on_def in_array_def)

lemma board_inv_agrees:
  assumes "board_inv b"
  shows "bookkeeping_agrees b"
proof -
  have "piece_squares b pc = squares_holding b pc \<and>
        (\<forall>s \<in> squares_holding b pc.
           in_array (pieceCount b pc) (index b s) \<and> pieceList b pc (index b s) = s)"
    if "pc \<in> set Pieces" for pc
  proof -
    from assms that have inv: "list_inv b pc"
      by (simp add: board_inv_def)
    have "piece_squares b pc \<subseteq> squares_holding b pc"
      using list_inv_entries [OF inv]
      by (auto simp: piece_squares_eq squares_holding_eq)
    moreover have "squares_holding b pc \<subseteq> piece_squares b pc"
    proof
      fix s assume "s \<in> squares_holding b pc"
      then have "in_array SQUARE_NB s" "board b s = pc"
        by (simp_all add: squares_holding_eq)
      from list_inv_squares [OF inv this] show "s \<in> piece_squares b pc"
        unfolding piece_squares_eq by (intro CollectI exI [of _ "index b s"]) simp
    qed
    moreover have "\<forall>s \<in> squares_holding b pc.
           in_array (pieceCount b pc) (index b s) \<and> pieceList b pc (index b s) = s"
      using list_inv_squares [OF inv]
      by (auto simp: squares_holding_eq in_array_def)
    ultimately show ?thesis by blast
  qed
  then show ?thesis
    by (simp add: bookkeeping_agrees_def)
qed

lemma board_inv_cleared: "board_inv Board2D_cleared"
  by (auto simp: board_inv_def list_inv_def totals_inv_def Board2D_cleared_def in_array_def
      dest: Pieces_range)

lemmas board_eval =
  put_piece_def remove_piece_def empty_def piece_on_def in_array_def int_result_def Let_def
  make_piece_def color_of_def Color_of_int_def Board2D_cleared_def Pieces_def

text \<open>
  Claim C6, as amended. Start from a board that satisfies the invariant (the cleared board
  of \<^verbatim>\<open>Board2D::set\<close> does: \<open>board_inv_cleared\<close>). For every sequence of placements of
  the twelve pieces on empty squares and removals from occupied squares in which each
  placement finds fewer than sixteen squares in its piece's list, every call returns,
  and after every prefix of the sequence the location collection of each piece is
  exactly the set of squares where \<^verbatim>\<open>piece_on\<close> reports the piece, with the reverse
  index of each such square pointing to its entry.
\<close>

theorem piece_bookkeeping_round_trip:
  assumes "board_inv b" and "calls_allowed b calls" and "calls_have_room b calls"
  shows "\<forall>n. \<exists>b'. do_calls b (take n calls) = Inr b' \<and> bookkeeping_agrees b'"
proof
  fix n
  from assms(2) have "calls_allowed b (take n calls)"
    by (rule calls_allowed_take)
  moreover from assms(3) have "calls_have_room b (take n calls)"
    by (rule calls_have_room_take)
  ultimately obtain b' where "do_calls b (take n calls) = Inr b'" "board_inv b'"
    using do_calls_inv [OF assms(1)] by blast
  with board_inv_agrees show "\<exists>b'. do_calls b (take n calls) = Inr b' \<and> bookkeeping_agrees b'"
    by blast
qed

theorem piece_bookkeeping_round_trip_witness:
  "board_inv Board2D_cleared \<and>
   calls_allowed Board2D_cleared test_calls \<and>
   calls_have_room Board2D_cleared test_calls \<and>
   (\<exists>b'. do_calls Board2D_cleared test_calls = Inr b' \<and> bookkeeping_agrees b')"
proof -
  have a: "calls_allowed Board2D_cleared test_calls"
    by (simp add: test_calls_def board_eval)
  have r: "calls_have_room Board2D_cleared test_calls"
    by (simp add: test_calls_def board_eval)
  from piece_bookkeeping_round_trip [OF board_inv_cleared a r, THEN spec, of 6]
    board_inv_cleared a r
  show ?thesis
    by (simp add: test_calls_def)
qed

text \<open>
  The claim as stated takes every sequence of placements on empty squares. A piece's
  list has sixteen entries: the seventeenth white pawn, on the empty square a3, writes
  \<^verbatim>\<open>pieceList[W_PAWN][16]\<close>, outside the array.
\<close>

theorem seventeenth_pawn_overflows_list:
  "calls_allowed Board2D_cleared seventeen_pawns \<and>
   do_calls Board2D_cleared seventeen_pawns = Inl UndefinedBehaviour"
  by (simp add: seventeen_pawns_def upto.simps board_eval)

section \<open>Calls outside their preconditions\<close>

lemma put_piece_never_asserts: "put_piece b pc s \<noteq> Inl AssertionFailed"
  by (auto simp: put_piece_def Let_def ebind_eq_Inl int_result_def)

lemma remove_piece_never_asserts: "remove_piece b s \<noteq> Inl AssertionFailed"
  by (auto simp: remove_piece_def Let_def ebind_eq_Inl int_result_def)

lemma put_piece_ignores_square:
  "put_piece (b\<lparr>board := (board b)(s := x)\<rparr>) pc s = put_piece b pc s"
  by (simp add: put_piece_def Let_def)

lemma plyToBoardIdx_never_asserts: "plyToBoardIdx line time c \<noteq> Inl AssertionFailed"
  by (auto simp: plyToBoardIdx_def Let_def ebind_eq_Inl int_result_def)

lemma board_on_turn_never_asserts: "board_on_turn line time c \<noteq> Inl AssertionFailed"
  by (auto simp: board_on_turn_def ebind_eq_Inl plyToBoardIdx_never_asserts
      vector_at_never_asserts)

lemma timeline_never_asserts: "timeline p l \<noteq> Inl AssertionFailed"
  by (auto simp: timeline_def ebind_eq_Inl int_result_never_asserts vector_at_never_asserts)

lemma not_ok_undefined:
  "\<not> is_ok r \<Longrightarrow> r \<noteq> Inl AssertionFailed \<Longrightarrow> r = Inl UndefinedBehaviour"
  by (cases r) (auto intro: error.exhaust)

lemma test_board_entries:
  "board test_board 0 = W_KING \<and> board test_board 8 = NO_PIECE \<and>
   pieceCount test_board B_KING = 1 \<and> pieceCount test_board 8 = 1 \<and>
   pieceCount test_board 0 = 2 \<and> pieceList test_board 0 1 = SQ_NONE"
proof -
  have "map_sum id (\<lambda>b. (board b 0, board b 8, pieceCount b 14, pieceCount b 8,
            pieceCount b 0, pieceList b 0 1)) (Board2D_set test_fen) =
        Inr (6, 0, 1, 1, 2, 64)"
    by (simp add: test_fen_def Board2D_set_def isspace_def isdigit_def PieceToChar_def
        int_result_def put_piece_def in_array_def Board2D_cleared_def make_piece_def
        color_of_def Color_of_int_def Let_def)
  then show ?thesis
    by (simp add: Board2D_set_test_fen)
qed

lemma put_on_occupied_square:
  "empty test_board SQ_A1 = Inr False \<and>
   is_ok (put_piece test_board B_KING SQ_A1) \<and>
   piece_on (projr (put_piece test_board B_KING SQ_A1)) SQ_A1 = Inr B_KING \<and>
   pieceCount (projr (put_piece test_board B_KING SQ_A1)) W_KING = pieceCount test_board W_KING"
  using test_board_entries
  by (simp add: empty_def piece_on_def put_piece_def in_array_def int_result_def Let_def
      make_piece_def color_of_def Color_of_int_def)

lemma remove_from_empty_square:
  "empty test_board 8 = Inr True \<and> remove_piece test_board 8 = Inl UndefinedBehaviour"
  using test_board_entries
  by (simp add: empty_def piece_on_def remove_piece_def in_array_def int_result_def Let_def
      make_piece_def color_of_def Color_of_int_def)

lemma missing_ply_and_timeline:
  "board_on_turn test_central 1 BLACK = Inl UndefinedBehaviour \<and>
   timeline test_position 5 = Inl UndefinedBehaviour \<and>
   new_timeline test_position 5 1 = Inl UndefinedBehaviour \<and>
   timeline test_position 0 = Inr test_central \<and>
   new_timeline test_position 0 2 = Inl UndefinedBehaviour"
  by (simp add: test_central_value test_position_value board_on_turn_def plyToBoardIdx_def
      int_result_def vector_at_def timeline_def new_timeline_def)

text \<open>
  Claim C8, as amended. None of the four violations is checked. \<^verbatim>\<open>put_piece\<close> never
  reads what the square held: its result is the same whatever that was, so a placement on
  an occupied square goes ahead like any other. \<^verbatim>\<open>put_piece\<close>, \<^verbatim>\<open>remove_piece\<close> and
  \<^verbatim>\<open>board_on_turn\<close> contain no assertion at all; \<^verbatim>\<open>board_on_turn\<close> at an index outside
  the vector, and \<^verbatim>\<open>new_timeline\<close> at a timeline or a ply that does not exist, index a
  vector out of range, which C++ leaves undefined and does not diagnose.
\<close>

theorem precondition_violations_unchecked:
  "put_piece (b\<lparr>board := (board b)(s := x)\<rparr>) pc s = put_piece b pc s \<and>
   put_piece b pc s \<noteq> Inl AssertionFailed \<and>
   remove_piece b s' \<noteq> Inl AssertionFailed \<and>
   board_on_turn line time c \<noteq> Inl AssertionFailed \<and>
   (plyToBoardIdx line time c = Inr idx \<and> \<not> (0 \<le> idx \<and> idx < int (length (boards line)))
      \<longrightarrow> board_on_turn line time c = Inl UndefinedBehaviour) \<and>
   (\<not> is_ok (timeline p l) \<longrightarrow> new_timeline p l t = Inl UndefinedBehaviour) \<and>
   (timeline p l' = Inr line' \<and> \<not> is_ok (board_on_turn line' t' (pos_side_to_move p))
      \<longrightarrow> new_timeline p l' t' = Inl UndefinedBehaviour)"
proof -
  have c: "board_on_turn line time c = Inl UndefinedBehaviour"
    if "plyToBoardIdx line time c = Inr idx" "\<not> (0 \<le> idx \<and> idx < int (length (boards line)))"
    using that by (simp add: board_on_turn_def vector_at_def)
  have d1: "new_timeline p l t = Inl UndefinedBehaviour" if "\<not> is_ok (timeline p l)"
  proof -
    from that timeline_never_asserts have "timeline p l = Inl UndefinedBehaviour"
      by (rule not_ok_undefined)
    then show ?thesis
      by (simp add: new_timeline_def)
  qed
  have d2: "new_timeline p l' t' = Inl UndefinedBehaviour"
    if "timeline p l' = Inr line'" "\<not> is_ok (board_on_turn line' t' (pos_side_to_move p))"
  proof -
    from that(2) board_on_turn_never_asserts
    have "board_on_turn line' t' (pos_side_to_move p) = Inl UndefinedBehaviour"
      by (rule not_ok_undefined)
    with that(1) show ?thesis
      by (simp add: new_timeline_def pos_side_to_move_def)
  qed
  from c d1 d2 show ?thesis
    by (simp add: put_piece_ignores_square put_piece_never_asserts remove_piece_never_asserts
        board_on_turn_never_asserts)
qed

theorem precondition_violations_unchecked_witness:
  "put_piece (test_board\<lparr>board := (board test_board)(SQ_A1 := NO_PIECE)\<rparr>) B_KING SQ_A1 =
     put_piece test_board B_KING SQ_A1 \<and>
   is_ok (put_piece test_board B_KING SQ_A1) \<and>
   remove_piece test_board 8 = Inl UndefinedBehaviour \<and>
   plyToBoardIdx test_central 1 BLACK = Inr 1 \<and>
   board_on_turn test_central 1 BLACK = Inl UndefinedBehaviour \<and>
   new_timeline test_position 5 1 = Inl UndefinedBehaviour \<and>
   new_timeline test_position 0 2 = Inl UndefinedBehaviour"
proof -
  have i: "plyToBoardIdx test_central 1 BLACK = Inr 1"
    by (simp add: test_central_value plyToBoardIdx_def int_result_def)
  have n: "\<not> (0 \<le> (1::int) \<and> 1 < int (length (boards test_central)))"
    by (simp add: test_central_value)
  have t: "\<not> is_ok (timeline test_position 5)"
    using missing_ply_and_timeline by simp
  have t0: "timeline test_position 0 = Inr test_central"
    using missing_ply_and_timeline by simp
  have b: "\<not> is_ok (board_on_turn test_central 2 (pos_side_to_move test_position))"
    by (simp add: test_central_value test_position_value board_on_turn_def plyToBoardIdx_def
        int_result_def vector_at_def pos_side_to_move_def)
  from precondition_violations_unchecked [where b = test_board and s = SQ_A1 and x = NO_PIECE
      and pc = B_KING and s' = 8 and line = test_central and time = 1 and c = BLACK
      and idx = 1 and p = test_position and l = 5 and t = 1 and l' = 0
      and line' = test_central and t' = 2]
    i n t t0 b put_on_occupied_square remove_from_empty_square
  show ?thesis
    by simp
qed

text \<open>
  The claim as stated has each violation fail fast. On the board of test.cpp, a black
  king placed on a1, where the white king stands, is placed and the call returns;
  removing from the empty square a2 reads \<^verbatim>\<open>pieceList[NO_PIECE][1]\<close>, which is \<^verbatim>\<open>SQ_NONE\<close>,
  and indexes \<^verbatim>\<open>index[SQ_NONE]\<close>; ply (1, Black) of the central timeline, timeline 5 and
  time 2 of timeline 0 do not exist, and the accessor and \<^verbatim>\<open>new_timeline\<close> index the
  vectors all the same.
\<close>

theorem violations_proceed_or_are_undefined:
  "empty test_board SQ_A1 = Inr False \<and>
   is_ok (put_piece test_board B_KING SQ_A1) \<and>
   piece_on (projr (put_piece test_board B_KING SQ_A1)) SQ_A1 = Inr B_KING \<and>
   empty test_board 8 = Inr True \<and>
   remove_piece test_board 8 = Inl UndefinedBehaviour \<and>
   board_on_turn test_central 1 BLACK = Inl UndefinedBehaviour \<and>
   new_timeline test_position 5 1 = Inl UndefinedBehaviour \<and>
   new_timeline test_position 0 2 = Inl UndefinedBehaviour"
  using put_on_occupied_square remove_from_empty_square missing_ply_and_timeline
  by simp

section \<open>Positions between two calls of set\<close>


lemma new_timeline_white_mover:
  "new_timeline_white p nt pc nc = Inr p' \<Longrightarrow> pos_sideToMove p' = pos_sideToMove p"
  by (drule new_timeline_white_cases) auto

lemma new_timeline_black_mover:
  "new_timeline_black p nt pc nc = Inr p' \<Longrightarrow> pos_sideToMove p' = pos_sideToMove p"
  by (drule new_timeline_black_cases) auto

lemma new_timeline_mover:
  assumes "new_timeline p l t = Inr (p', nb)"
  shows "pos_sideToMove p' = pos_sideToMove p"
  using new_timeline_unfold [OF assms]
  by (auto split: if_splits dest: new_timeline_white_mover new_timeline_black_mover)

lemma timeline_append_board_frame:
  assumes "timeline_append_board p l b = Inr p'"
  shows "pos_sideToMove p' = pos_sideToMove p \<and>
         activePositiveLines p' = activePositiveLines p \<and>
         activeNegativeLines p' = activeNegativeLines p \<and>
         length (positiveLines p') = length (positiveLines p) \<and>
         length (negativeLines p') = length (negativeLines p) \<and>
         map active (positiveLines p') = map active (positiveLines p) \<and>
         map active (negativeLines p') = map active (negativeLines p)"
proof -
  have u: "map active (xs[k := append_board (xs ! k) b]) = map active xs" for xs k
  proof (cases "k < length xs")
    case True
    then show ?thesis
      by (simp add: map_update append_board_def list_update_same_conv)
  next
    case False
    then show ?thesis
      by (simp add: list_update_beyond)
  qed
  from assms show ?thesis
    by (auto simp: timeline_append_board_def ebind_eq_Inr timeline_def vector_at_eq_Inr
        int_result_eq_Inr u split: if_splits)
qed

lemma timeline_edit_board_frame:
  assumes "timeline_edit_board p l t c b = Inr p'"
  shows "pos_sideToMove p' = pos_sideToMove p \<and>
         activePositiveLines p' = activePositiveLines p \<and>
         activeNegativeLines p' = activeNegativeLines p \<and>
         length (positiveLines p') = length (positiveLines p) \<and>
         length (negativeLines p') = length (negativeLines p) \<and>
         map active (positiveLines p') = map active (positiveLines p) \<and>
         map active (negativeLines p') = map active (negativeLines p)"
proof -
  have u: "map active (xs[k := (xs ! k)\<lparr>boards := bs\<rparr>]) = map active xs" for xs k bs
  proof (cases "k < length xs")
    case True
    then show ?thesis
      by (simp add: map_update list_update_same_conv)
  next
    case False
    then show ?thesis
      by (simp add: list_update_beyond)
  qed
  from assms show ?thesis
    by (auto simp: timeline_edit_board_def ebind_eq_Inr timeline_def vector_at_eq_Inr
        int_result_eq_Inr u Let_def split: if_splits)
qed








lemma do_position_call_mover:
  "do_position_call p c = Inr p' \<Longrightarrow> pos_sideToMove p' = pos_sideToMove p"
  by (cases c)
     (auto simp: ebind_eq_Inr
       dest: new_timeline_mover timeline_append_board_frame timeline_edit_board_frame)

lemma position_run_mover:
  "position_run p cs = Inr p' \<Longrightarrow> pos_sideToMove p' = pos_sideToMove p"
proof (induction cs arbitrary: p)
  case Nil
  then show ?case by simp
next
  case (Cons c cs)
  from Cons.prems obtain p1 where
    p1: "do_position_call p c = Inr p1" "position_run p1 cs = Inr p'"
    by (auto simp: ebind_eq_Inr)
  from Cons.IH [OF p1(2)] do_position_call_mover [OF p1(1)] show ?case
    by simp
qed







section \<open>The second activation\<close>










section \<open>The balance of the two counters\<close>

lemma counters_track_balanced: "counters_track p \<Longrightarrow> balanced p"
  by (cases "pos_sideToMove p") (auto simp: counters_track_def balanced_def Let_def)

lemma Position_set_lengths:
  assumes "Position_set negativeFENs positiveFENs = Inr p"
    and "int (length negativeFENs) \<le> 2147483648"
  shows "length (positiveLines p) = length positiveFENs"
    and "length (negativeLines p) = length negativeFENs"
    and "positiveLines p \<noteq> []"
proof -
  from Position_set_lines(1) [OF assms(1)] show "length (positiveLines p) = length positiveFENs"
    by (simp add: list_all2_lengthD)
  from assms(2) have "to_int (int (length negativeFENs) - 1) = int (length negativeFENs) - 1"
    by (intro to_int_id) simp_all
  with Position_set_lines(2) [OF assms(1)]
  have "list_all2 initial_timeline (rev negativeFENs) (negativeLines p)"
    by simp
  then show "length (negativeLines p) = length negativeFENs"
    by (auto dest: list_all2_lengthD)
  from Position_set_eq_Inr [OF assms(1)] show "positiveLines p \<noteq> []"
    by (auto simp: vector_at_eq_Inr)
qed

lemma counters_track_set:
  assumes "Position_set negativeFENs positiveFENs = Inr p"
    and "balanced p"
    and "length negativeFENs \<le> 32766"
    and "length positiveFENs \<le> 32767"
  shows "counters_track p"
proof -
  from assms(3) have "int (length negativeFENs) \<le> 2147483648"
    by simp
  note len = Position_set_lengths [OF assms(1) this]
  from len(1,3) have ne: "1 \<le> int (length positiveFENs)"
    by (cases positiveFENs) auto
  with assms(4) have ap: "to_short (int (length positiveFENs) - 1) = int (length positiveFENs) - 1"
    by (intro to_short_id) simp_all
  from assms(3) have an: "to_short (int (length negativeFENs)) = int (length negativeFENs)"
    by (intro to_short_id) simp_all
  from Position_set_eq_Inr [OF assms(1)] ap an have
    c: "activePositiveLines p = int (length positiveFENs) - 1"
       "activeNegativeLines p = int (length negativeFENs)"
    by auto
  from c assms(2,3,4) ne len(1,2) show ?thesis
    by (cases "pos_sideToMove p") (auto simp: counters_track_def balanced_def Let_def)
qed

lemma counters_track_white:
  assumes "counters_track p"
    and "pos_sideToMove p = WHITE"
    and "new_timeline_white p nt (positive_timeline_count p) (negative_timeline_count p) = Inr p'"
    and "int (length (positiveLines p)) \<le> 2147483647"
  shows "counters_track p' \<and>
         length (positiveLines p') = length (positiveLines p) + 1 \<and>
         length (negativeLines p') = length (negativeLines p)"
proof -
  from assms(1,2) have t:
    "0 \<le> int (length (positiveLines p)) - 1"
    "int (length (negativeLines p)) \<le> 32766"
    "int (length (negativeLines p)) - 1 \<le> int (length (positiveLines p)) - 1"
    "activeNegativeLines p = int (length (negativeLines p))"
    "activePositiveLines p = min (int (length (positiveLines p)) - 1) (int (length (negativeLines p)) + 1)"
    by (simp_all add: counters_track_def Let_def)
  from t(1) assms(4) have pc: "positive_timeline_count p = int (length (positiveLines p)) - 1"
    unfolding positive_timeline_count_def by (intro to_int_id) simp_all
  from t(2) have nc: "negative_timeline_count p = int (length (negativeLines p))"
    unfolding negative_timeline_count_def by (intro to_int_id) simp_all
  from new_timeline_white_cases [OF assms(3)] pc nc t assms(2) show ?thesis
    by (auto simp: counters_track_def Let_def to_short_def)
qed

lemma counters_track_black:
  assumes "counters_track p"
    and "pos_sideToMove p = BLACK"
    and "new_timeline_black p nt (positive_timeline_count p) (negative_timeline_count p) = Inr p'"
    and "int (length (negativeLines p)) \<le> 2147483647"
  shows "counters_track p' \<and>
         length (positiveLines p') = length (positiveLines p) \<and>
         length (negativeLines p') = length (negativeLines p) + 1"
proof -
  from assms(1,2) have t:
    "0 \<le> int (length (positiveLines p)) - 1"
    "int (length (positiveLines p)) - 1 \<le> 32766"
    "int (length (positiveLines p)) - 1 - 1 \<le> int (length (negativeLines p))"
    "activePositiveLines p = int (length (positiveLines p)) - 1"
    "activeNegativeLines p = min (int (length (negativeLines p))) (int (length (positiveLines p)) - 1 + 1)"
    by (simp_all add: counters_track_def Let_def)
  from t(1,2) have pc: "positive_timeline_count p = int (length (positiveLines p)) - 1"
    unfolding positive_timeline_count_def by (intro to_int_id) simp_all
  from assms(4) have nc: "negative_timeline_count p = int (length (negativeLines p))"
    unfolding negative_timeline_count_def by (intro to_int_id) simp_all
  from new_timeline_black_cases [OF assms(3)] pc nc t assms(2) show ?thesis
    by (auto simp: counters_track_def Let_def to_short_def)
qed

lemma counters_track_branch:
  assumes "counters_track p"
    and "new_timeline p l t = Inr (p', nb)"
    and "int (length (positiveLines p)) \<le> 2147483647"
    and "int (length (negativeLines p)) \<le> 2147483647"
  shows "counters_track p' \<and>
         length (positiveLines p') \<le> length (positiveLines p) + 1 \<and>
         length (negativeLines p') \<le> length (negativeLines p) + 1"
proof (cases "pos_sideToMove p")
  case WHITE
  with new_timeline_unfold [OF assms(2)] obtain nt where
    "new_timeline_white p nt (positive_timeline_count p) (negative_timeline_count p) = Inr p'"
    by auto
  from counters_track_white [OF assms(1) WHITE this assms(3)] show ?thesis
    by simp
next
  case BLACK
  with new_timeline_unfold [OF assms(2)] obtain nt where
    "new_timeline_black p nt (positive_timeline_count p) (negative_timeline_count p) = Inr p'"
    by auto
  from counters_track_black [OF assms(1) BLACK this assms(4)] show ?thesis
    by simp
qed

lemma counters_track_append:
  assumes "counters_track p" and "timeline_append_board p l b = Inr p'"
  shows "counters_track p'"
  using assms(1) timeline_append_board_frame [OF assms(2)]
  by (cases "pos_sideToMove p") (simp_all add: counters_track_def Let_def)

lemma counters_track_edit:
  assumes "counters_track p" and "timeline_edit_board p l t c b = Inr p'"
  shows "counters_track p'"
  using assms(1) timeline_edit_board_frame [OF assms(2)]
  by (cases "pos_sideToMove p") (simp_all add: counters_track_def Let_def)

lemma counters_track_call:
  assumes "counters_track p"
    and "do_position_call p c = Inr p'"
    and "int (length (positiveLines p)) \<le> 2147483647"
    and "int (length (negativeLines p)) \<le> 2147483647"
  shows "counters_track p' \<and>
         length (positiveLines p') \<le> length (positiveLines p) + 1 \<and>
         length (negativeLines p') \<le> length (negativeLines p) + 1"
proof (cases c)
  case (Branch l t)
  with assms(2) obtain nb where "new_timeline p l t = Inr (p', nb)"
    by (auto simp: ebind_eq_Inr)
  from counters_track_branch [OF assms(1) this assms(3,4)] show ?thesis .
next
  case (Append l b)
  with assms(2) have a: "timeline_append_board p l b = Inr p'"
    by simp
  from counters_track_append [OF assms(1) a] timeline_append_board_frame [OF a] show ?thesis
    by simp
next
  case (Edit l t col b)
  with assms(2) have a: "timeline_edit_board p l t col b = Inr p'"
    by simp
  from counters_track_edit [OF assms(1) a] timeline_edit_board_frame [OF a] show ?thesis
    by simp
qed

lemma counters_track_run:
  assumes "counters_track p"
    and "position_run p cs = Inr p'"
    and "int (length (positiveLines p)) + int (length cs) \<le> 2147483647"
    and "int (length (negativeLines p)) + int (length cs) \<le> 2147483647"
  shows "counters_track p'"
  using assms
proof (induction cs arbitrary: p)
  case Nil
  then show ?case by simp
next
  case (Cons c cs)
  from Cons.prems(2) obtain p1 where
    p1: "do_position_call p c = Inr p1" "position_run p1 cs = Inr p'"
    by (auto simp: ebind_eq_Inr)
  from Cons.prems(3,4) have b: "int (length (positiveLines p)) \<le> 2147483647"
    "int (length (negativeLines p)) \<le> 2147483647"
    by simp_all
  from counters_track_call [OF Cons.prems(1) p1(1) b] have
    c: "counters_track p1"
       "length (positiveLines p1) \<le> length (positiveLines p) + 1"
       "length (negativeLines p1) \<le> length (negativeLines p) + 1"
    by simp_all
  from c(2,3) Cons.prems(3,4) have
    "int (length (positiveLines p1)) + int (length cs) \<le> 2147483647"
    "int (length (negativeLines p1)) + int (length cs) \<le> 2147483647"
    by simp_all
  from Cons.IH [OF c(1) p1(2) this] show ?case .
qed

text \<open>
  Claim C1, as amended. Starting from a position that \<^verbatim>\<open>set\<close> leaves balanced, with at
  most 32766 negative and 32767 positive strings, after every run of at most
  2147450880 calls (\<^verbatim>\<open>new_timeline\<close> calls, boards appended or changed by the caller)
  that all return, the counters satisfy
  \<open>|activePositiveLines - activeNegativeLines| \<le> 1\<close>. The mover is the one \<^verbatim>\<open>set\<close> left
  throughout: no call changes it.
\<close>

theorem balance_kept_while_mover_stays:
  assumes "Position_set negativeFENs positiveFENs = Inr p0"
    and "balanced p0"
    and "length negativeFENs \<le> 32766"
    and "length positiveFENs \<le> 32767"
    and "position_run p0 calls = Inr p"
    and "int (length calls) \<le> 2147450880"
  shows "balanced p \<and> pos_side_to_move p = pos_side_to_move p0"
proof -
  from assms(3) have "int (length negativeFENs) \<le> 2147483648"
    by simp
  note len = Position_set_lengths [OF assms(1) this]
  from counters_track_set [OF assms(1,2,3,4)] have "counters_track p0" .
  moreover from len assms(3,4,6) have
    "int (length (positiveLines p0)) + int (length calls) \<le> 2147483647"
    "int (length (negativeLines p0)) + int (length calls) \<le> 2147483647"
    by simp_all
  ultimately have "counters_track p"
    using assms(5) by (intro counters_track_run [of p0 calls p]) simp_all
  then have "balanced p"
    by (rule counters_track_balanced)
  with position_run_mover [OF assms(5)] show ?thesis
    by (simp add: pos_side_to_move_def)
qed

text \<open>The position the run \<open>test_run\<close> leaves.\<close>

lemma test_run_value:
  "position_run test_position test_run =
     Inr \<lparr>negativeLines = [],
          positiveLines =
            [\<lparr>startTime = 1, startColor = WHITE, active = True,
              boards = [test_board, test_board], printIndented = True\<rparr>,
             \<lparr>startTime = 1, startColor = BLACK, active = True, boards = [passTurn test_board],
              printIndented = True\<rparr>,
             \<lparr>startTime = 1, startColor = BLACK, active = False, boards = [passTurn test_board],
              printIndented = True\<rparr>],
          activePositiveLines = 1, activeNegativeLines = 0, timeOfPresent = 1,
          pos_sideToMove = WHITE\<rparr>"
  by (simp add: test_run_def test_position_value timeline_append_board_def branch_eval
      sideToMove_test_board)

theorem balance_kept_while_mover_stays_witness:
  "balanced test_position \<and>
   is_ok (position_run test_position test_run) \<and>
   balanced (projr (position_run test_position test_run)) \<and>
   pos_side_to_move (projr (position_run test_position test_run)) = WHITE"
proof -
  have b: "balanced test_position"
    by (simp add: balanced_def test_position_value)
  have ok: "is_ok (position_run test_position test_run)"
    unfolding test_run_value by simp
  then have r: "position_run test_position test_run
                  = Inr (projr (position_run test_position test_run))"
    by (rule is_ok_projr)
  have m: "pos_side_to_move test_position = WHITE"
    by (simp add: pos_side_to_move_def test_position_value)
  from balance_kept_while_mover_stays [OF Position_set_test b _ _ r] b ok m show ?thesis
    by (simp add: test_run_def)
qed

text \<open>
  The claim as stated has no bound on the number of timelines. The counters are
  \<^verbatim>\<open>short\<close>: \<^verbatim>\<open>set\<close> with 32767 negative strings and 32768 positive ones leaves both
  counters at 32767, White to move; White's first call increments
  \<^verbatim>\<open>activePositiveLines\<close> to -32768 and the counters differ by 65535.
\<close>

lemma Board2D_set_lone_king_side: "Board2D_set ''k w'' = Inr b \<Longrightarrow> sideToMove b = WHITE"
  by (auto simp: Board2D_set_def isspace_def isdigit_def PieceToChar_def
      int_result_def put_piece_def in_array_def Board2D_cleared_def make_piece_def
      color_of_def Color_of_int_def Let_def)

lemma equal_counts_white_branch:
  assumes "pos_sideToMove p = WHITE"
    and "timeline p l = Inr line"
    and "board_on_turn line t WHITE = Inr src"
    and "- 2147483648 \<le> t" and "t \<le> 2147483647"
    and "positive_timeline_count p = negative_timeline_count p"
  shows "\<exists>p' nb. new_timeline p l t = Inr (p', nb) \<and>
           activePositiveLines p' = to_short (activePositiveLines p + 1) \<and>
           activeNegativeLines p' = activeNegativeLines p"
  using assms
  by (simp add: new_timeline_def new_timeline_white_def Let_def int_result_def)

lemma Position_set_full:
  "Position_set (replicate 32767 ''k w'') (replicate 32768 ''k w'') = Inr full_position"
  unfolding full_position_def
  by (intro is_ok_projr Position_set_ok) (auto simp: Board2D_set_lone_king)

theorem balance_lost_at_short_bound:
  "Position_set (replicate 32767 ''k w'') (replicate 32768 ''k w'') = Inr full_position \<and>
   balanced full_position \<and>
   is_ok (position_run full_position [Branch 0 1]) \<and>
   activePositiveLines (projr (position_run full_position [Branch 0 1])) = - 32768 \<and>
   activeNegativeLines (projr (position_run full_position [Branch 0 1])) = 32767 \<and>
   \<not> balanced (projr (position_run full_position [Branch 0 1]))"
proof -
  note s = Position_set_full
  have "int (length (replicate 32767 ''k w'')) \<le> 2147483648"
    by simp
  note len = Position_set_lengths [OF s this]
  from Position_set_eq_Inr [OF s] obtain central fb where
    c: "vector_at (positiveLines full_position) 0 = Inr central"
       "first_board central = Inr fb"
       "activePositiveLines full_position = 32767"
       "activeNegativeLines full_position = 32767"
       "pos_sideToMove full_position = sideToMove fb"
    by (auto simp: to_short_def)
  from c(1) have central: "central = positiveLines full_position ! 0"
    by (simp add: vector_at_eq_Inr)
  from Position_set_lines(1) [OF s] len(1)
  have "initial_timeline (replicate 32768 ''k w'' ! 0) (positiveLines full_position ! 0)"
    by (simp add: list_all2_conv_all_nth)
  then have i: "initial_timeline ''k w'' central"
    by (simp add: central)
  then obtain b where b: "Board2D_set ''k w'' = Inr b" "startTime central = 1"
    "startColor central = sideToMove b" "boards central = [b]"
    by (auto simp: initial_timeline_def start_time_def start_color_def side_to_move_def)
  from b(1) have w: "sideToMove b = WHITE"
    by (rule Board2D_set_lone_king_side)
  from c(2) b(4) have "fb = b"
    by (simp add: first_board_def)
  with c(5) w have m: "pos_sideToMove full_position = WHITE"
    by simp
  from c(1) have tl: "timeline full_position 0 = Inr central"
    by (simp add: timeline_def)
  from b w have bt: "board_on_turn central 1 WHITE = Inr b"
    by (simp add: board_on_turn_def plyToBoardIdx_def int_result_def vector_at_def)
  from len have cnt: "positive_timeline_count full_position = negative_timeline_count full_position"
    by (simp add: positive_timeline_count_def negative_timeline_count_def)
  from equal_counts_white_branch [OF m tl bt _ _ cnt] obtain p' nb where
    p': "new_timeline full_position 0 1 = Inr (p', nb)"
        "activePositiveLines p' = to_short (activePositiveLines full_position + 1)"
        "activeNegativeLines p' = activeNegativeLines full_position"
    by auto
  from p'(1) have r: "position_run full_position [Branch 0 1] = Inr p'"
    by simp
  from p'(2,3) c(3,4) have v: "activePositiveLines p' = - 32768" "activeNegativeLines p' = 32767"
    by (simp_all add: to_short_def)
  from c(3,4) have "balanced full_position"
    by (simp add: balanced_def)
  with s r v show ?thesis
    by (simp add: balanced_def)
qed

end
